theory Spec2Isabelle
  imports Main "HOL-Library.Word"
begin

unbundle bit_operations_syntax

section \<open>Machine state of the PDP-11 simulator (pdp11.c)\<close>

text \<open>
  Every C \<open>int\<close> and \<open>unsigned\<close> of the simulator is a 32-bit word: \<open>+\<close> and \<open>-\<close> wrap,
  \<open>sint\<close> reads an \<open>int\<close>, \<open><s\<close> is the signed comparison, \<open>drop_bit\<close> is \<open>>>\<close> on an
  \<open>unsigned\<close> and \<open>signed_drop_bit\<close> is \<open>>>\<close> on an \<open>int\<close>. The octal constants of the
  source are written in hexadecimal: \<open>0177777 = 0xFFFF\<close>, \<open>0100000 = 0x8000\<close>,
  \<open>0200000 = 0x10000\<close>, \<open>0377 = 0xFF\<close>, \<open>077 = 0x3F\<close>.
\<close>

type_synonym cint = "32 word"

definition MEM_SIZE :: nat where
  "MEM_SIZE = 32 * 1024"

text \<open>\<open>struct ap\<close>: the operand descriptor.\<close>

record addr_phrase =
  ap_mode :: cint
  ap_reg :: cint
  ap_addr :: cint
  ap_value :: cint

text \<open>
  The globals of the program. The arrays \<open>reg[8]\<close> and \<open>mem[MEM_SIZE]\<close> are functions of the
  index; every access goes through \<open>reg_index\<close> or \<open>mem_index\<close>, which check the bounds.
  The two output flags \<open>instr_trace\<close> and \<open>verbose\<close> only switch printing on and are left out
  together with the printing.
\<close>

record machine =
  reg :: "nat \<Rightarrow> cint"
  mem :: "nat \<Rightarrow> cint"
  halt :: cint
  cc_n :: cint
  cc_c :: cint
  cc_z :: cint
  cc_v :: cint
  result :: cint
  ind :: cint
  opcode :: cint
  instruction :: cint
  src :: addr_phrase
  dst :: addr_phrase
  instr_exec :: cint
  instr_fetch :: cint
  words_read :: cint
  words_written :: cint
  br_exec :: cint
  br_taken :: cint

text \<open>
  How a run can stop other than by the halt instruction: \<open>exit(-1)\<close> after the
  BAD INSTRUCTION message (carrying the value printed), a failed \<open>assert\<close> (abort), and an
  array access outside its bounds, which C leaves undefined and the model makes a fault.
\<close>

datatype error = Bad_instruction cint | Assert_failure | Mem_fault

definition zero_phrase :: addr_phrase where
  "zero_phrase = \<lparr>ap_mode = 0, ap_reg = 0, ap_addr = 0, ap_value = 0\<rparr>"

definition init :: machine where
  "init = \<lparr>reg = (\<lambda>_. 0), mem = (\<lambda>_. 0), halt = 0, cc_n = 0, cc_c = 0, cc_z = 0, cc_v = 0,
     result = 0, ind = 0, opcode = 0, instruction = 0, src = zero_phrase, dst = zero_phrase,
     instr_exec = 0, instr_fetch = 0, words_read = 0, words_written = 0,
     br_exec = 0, br_taken = 0\<rparr>"

text \<open>\<open>mem[a >> 1]\<close> for an \<open>int a\<close>: the index, when it lies inside the array.\<close>

definition mem_index :: "cint \<Rightarrow> nat option" where
  "mem_index a =
     (let i = sint (signed_drop_bit 1 a)
      in if 0 \<le> i \<and> i < int MEM_SIZE then Some (nat i) else None)"

definition mem_at :: "machine \<Rightarrow> cint \<Rightarrow> cint option" where
  "mem_at s a = (case mem_index a of None \<Rightarrow> None | Some i \<Rightarrow> Some (mem s i))"

text \<open>\<open>reg[r]\<close> for an \<open>int r\<close>: the index, when it lies inside the array.\<close>

definition reg_index :: "cint \<Rightarrow> nat option" where
  "reg_index r = (if 0 \<le> sint r \<and> sint r < 8 then Some (nat (sint r)) else None)"

section \<open>load_program\<close>

text \<open>
  The input is the list of the values \<open>scanf("%o")\<close> delivers; they are stored from
  \<open>mem[0]\<close> on, with no check against \<open>MEM_SIZE\<close> in the source.
\<close>

fun load_loop :: "cint list \<Rightarrow> nat \<Rightarrow> machine \<Rightarrow> error + machine" where
  "load_loop [] i s = Inr s"
| "load_loop (k # ks) i s =
     (if i < MEM_SIZE then load_loop ks (i + 1) (s\<lparr>mem := (mem s)(i := k)\<rparr>)
      else Inl Mem_fault)"

definition load_program :: "cint list \<Rightarrow> machine \<Rightarrow> error + machine" where
  "load_program ks s = load_loop ks 0 s"

section \<open>get_operand\<close>

text \<open>\<open>get_operand\<close> is called with \<open>&src\<close> or \<open>&dst\<close>.\<close>

datatype operand = Src | Dst

definition phrase :: "operand \<Rightarrow> machine \<Rightarrow> addr_phrase" where
  "phrase k s = (case k of Src \<Rightarrow> src s | Dst \<Rightarrow> dst s)"

definition set_phrase :: "operand \<Rightarrow> addr_phrase \<Rightarrow> machine \<Rightarrow> machine" where
  "set_phrase k p s = (case k of Src \<Rightarrow> s\<lparr>src := p\<rparr> | Dst \<Rightarrow> s\<lparr>dst := p\<rparr>)"

text \<open>The two-level read of the deferred modes: \<open>p->addr = mem[a >> 1]; p->value = mem[p->addr >> 1]\<close>.\<close>

definition deferred :: "machine \<Rightarrow> cint \<Rightarrow> (cint \<times> cint) option" where
  "deferred s a =
     (case mem_at s a of None \<Rightarrow> None
      | Some a' \<Rightarrow> (case mem_at s a' of None \<Rightarrow> None | Some v \<Rightarrow> Some (a', v)))"

definition get_REG :: "operand \<Rightarrow> nat \<Rightarrow> machine \<Rightarrow> error + machine" where
  "get_REG k r s = Inr (set_phrase k ((phrase k s)\<lparr>ap_value := reg s r, ap_addr := 0\<rparr>) s)"

definition get_REG_DEF :: "operand \<Rightarrow> nat \<Rightarrow> machine \<Rightarrow> error + machine" where
  "get_REG_DEF k r s =
     (case mem_at s (reg s r) of None \<Rightarrow> Inl Mem_fault
      | Some v \<Rightarrow>
          Inr (set_phrase k ((phrase k s)\<lparr>ap_addr := reg s r, ap_value := v\<rparr>)
                 (s\<lparr>words_read := words_read s + 1\<rparr>)))"

definition get_AUTO_INC :: "operand \<Rightarrow> nat \<Rightarrow> machine \<Rightarrow> error + machine" where
  "get_AUTO_INC k r s =
     (let s1 = (if ap_reg (phrase k s) = 7 then s\<lparr>instr_fetch := instr_fetch s + 1\<rparr> else s);
          a = reg s1 r
      in if \<not> a <s 0x10000 then Inl Assert_failure
         else (case mem_at s1 a of None \<Rightarrow> Inl Mem_fault
               | Some v \<Rightarrow>
                   if \<not> v <s 0x10000 then Inl Assert_failure
                   else Inr (set_phrase k ((phrase k s1)\<lparr>ap_addr := a, ap_value := v\<rparr>)
                               (s1\<lparr>reg := (reg s1)(r := (reg s1 r + 2) AND 0xFFFF)\<rparr>))))"

definition get_AUTO_INC_DEF :: "operand \<Rightarrow> nat \<Rightarrow> machine \<Rightarrow> error + machine" where
  "get_AUTO_INC_DEF k r s =
     (case deferred s (reg s r) of None \<Rightarrow> Inl Mem_fault
      | Some (a', v) \<Rightarrow>
          Inr (set_phrase k ((phrase k s)\<lparr>ap_addr := a', ap_value := v\<rparr>)
                 (s\<lparr>words_read := words_read s + 1, reg := (reg s)(r := reg s r + 2)\<rparr>)))"

definition get_AUTO_DEC :: "operand \<Rightarrow> nat \<Rightarrow> machine \<Rightarrow> error + machine" where
  "get_AUTO_DEC k r s =
     (let s1 = s\<lparr>words_read := words_read s + 1, reg := (reg s)(r := (reg s r - 2) AND 0xFFFF)\<rparr>
      in case mem_at s1 (reg s1 r) of None \<Rightarrow> Inl Mem_fault
         | Some v \<Rightarrow> Inr (set_phrase k ((phrase k s1)\<lparr>ap_addr := reg s1 r, ap_value := v\<rparr>) s1))"

definition get_AUTO_DEC_DEF :: "operand \<Rightarrow> nat \<Rightarrow> machine \<Rightarrow> error + machine" where
  "get_AUTO_DEC_DEF k r s =
     (let s1 = s\<lparr>words_read := words_read s + 1, reg := (reg s)(r := reg s r - 2)\<rparr>
      in case deferred s1 (reg s1 r) of None \<Rightarrow> Inl Mem_fault
         | Some (a', v) \<Rightarrow> Inr (set_phrase k ((phrase k s1)\<lparr>ap_addr := a', ap_value := v\<rparr>) s1))"

text \<open>\<open>INDEX\<close> and \<open>INDEX_DEF\<close> first read the displacement word at the PC into \<open>ind\<close>.\<close>

definition get_INDEX :: "operand \<Rightarrow> nat \<Rightarrow> machine \<Rightarrow> error + machine" where
  "get_INDEX k r s =
     (let s1 = s\<lparr>instr_fetch := instr_fetch s + 1, words_read := words_read s + 3\<rparr>
      in case mem_at s1 (reg s1 7) of None \<Rightarrow> Inl Mem_fault
         | Some d \<Rightarrow>
             (let a = (reg s1 r + d) AND 0xFFFF;
                  s2 = s1\<lparr>ind := d, reg := (reg s1)(7 := (reg s1 7 + 2) AND 0xFFFF)\<rparr>
              in case mem_at s2 a of None \<Rightarrow> Inl Mem_fault
                 | Some v \<Rightarrow> Inr (set_phrase k ((phrase k s2)\<lparr>ap_addr := a, ap_value := v\<rparr>) s2)))"

definition get_INDEX_DEF :: "operand \<Rightarrow> nat \<Rightarrow> machine \<Rightarrow> error + machine" where
  "get_INDEX_DEF k r s =
     (let s1 = s\<lparr>instr_fetch := instr_fetch s + 1, words_read := words_read s + 3\<rparr>
      in case mem_at s1 (reg s1 7) of None \<Rightarrow> Inl Mem_fault
         | Some d \<Rightarrow>
             (let a = (reg s1 r + d) AND 0xFFFF;
                  s2 = s1\<lparr>ind := d, reg := (reg s1)(7 := (reg s1 7 + 2) AND 0xFFFF)\<rparr>
              in case deferred s2 a of None \<Rightarrow> Inl Mem_fault
                 | Some (a', v) \<Rightarrow>
                     Inr (set_phrase k ((phrase k s2)\<lparr>ap_addr := a', ap_value := v\<rparr>) s2)))"

text \<open>
  The \<open>switch\<close> has no default: a mode outside 0..7 does nothing. Every case reads
  \<open>reg[p->reg]\<close> first.
\<close>

definition get_operand :: "operand \<Rightarrow> machine \<Rightarrow> error + machine" where
  "get_operand k s =
     (let m = ap_mode (phrase k s)
      in if m \<notin> {0, 1, 2, 3, 4, 5, 6, 7} then Inr s
         else (case reg_index (ap_reg (phrase k s)) of None \<Rightarrow> Inl Mem_fault
               | Some r \<Rightarrow>
                   if m = 0 then get_REG k r s
                   else if m = 1 then get_REG_DEF k r s
                   else if m = 2 then get_AUTO_INC k r s
                   else if m = 3 then get_AUTO_INC_DEF k r s
                   else if m = 4 then get_AUTO_DEC k r s
                   else if m = 5 then get_AUTO_DEC_DEF k r s
                   else if m = 6 then get_INDEX k r s
                   else get_INDEX_DEF k r s))"

section \<open>main: decoding and the instructions\<close>

text \<open>The cast \<open>(uint16_t)\<close>, with the value converted back to \<open>int\<close>.\<close>

definition uint16_t :: "cint \<Rightarrow> cint" where
  "uint16_t x = ucast (ucast x :: 16 word)"

text \<open>\<open>offset = offset << 24; offset = offset >> 24;\<close> on an \<open>int\<close>.\<close>

definition sign_extend :: "cint \<Rightarrow> cint" where
  "sign_extend x = signed_drop_bit 24 (push_bit 24 x)"

definition decode_fields :: "machine \<Rightarrow> machine" where
  "decode_fields s =
     (let w = instruction s
      in s\<lparr>src := (src s)\<lparr>ap_mode := drop_bit 9 w AND 7, ap_reg := drop_bit 6 w AND 7\<rparr>,
            dst := (dst s)\<lparr>ap_mode := drop_bit 3 w AND 7, ap_reg := w AND 7\<rparr>\<rparr>)"

text \<open>\<open>get_operand(&src); get_operand(&dst);\<close>\<close>

definition get_operands :: "machine \<Rightarrow> error + machine" where
  "get_operands s = (case get_operand Src s of Inl e \<Rightarrow> Inl e | Inr s1 \<Rightarrow> get_operand Dst s1)"

text \<open>\<open>reg[dst.reg] = v\<close>\<close>

definition write_dst_reg :: "cint \<Rightarrow> machine \<Rightarrow> error + machine" where
  "write_dst_reg v s =
     (case reg_index (ap_reg (dst s)) of None \<Rightarrow> Inl Mem_fault
      | Some r \<Rightarrow> Inr (s\<lparr>reg := (reg s)(r := v)\<rparr>))"

definition do_MOV :: "machine \<Rightarrow> error + machine" where
  "do_MOV s =
     (case get_operands s of Inl e \<Rightarrow> Inl e
      | Inr s1 \<Rightarrow>
          (let v = ap_value (src s1);
               s2 = s1\<lparr>cc_n := (if v AND 0x8000 \<noteq> 0 then 1 else 0),
                       cc_z := (if v = 0 then 1 else 0),
                       cc_v := 0\<rparr>
           in if ap_mode (dst s2) = 2 then
                (case mem_index (ap_addr (dst s2)) of None \<Rightarrow> Inl Mem_fault
                 | Some i \<Rightarrow>
                     Inr (s2\<lparr>mem := (mem s2)(i := v), words_written := words_written s2 + 1\<rparr>))
              else write_dst_reg v s2))"

definition do_CMP :: "machine \<Rightarrow> error + machine" where
  "do_CMP s =
     (case get_operands s of Inl e \<Rightarrow> Inl e
      | Inr s1 \<Rightarrow>
          (let sv = ap_value (src s1); dv = ap_value (dst s1);
               r0 = sv - dv;
               c = signed_drop_bit 16 (r0 AND 0x10000);
               r = r0 AND 0xFFFF
           in Inr (s1\<lparr>result := r, cc_c := c,
                       cc_n := (if r AND 0x8000 \<noteq> 0 then 1 else 0),
                       cc_z := (if r = 0 then 1 else 0),
                       cc_v := (if sv AND 0x8000 \<noteq> dv AND 0x8000 \<and> sv AND 0x8000 = r AND 0x8000
                                then 1 else 0)\<rparr>)))"

definition do_ADD :: "machine \<Rightarrow> error + machine" where
  "do_ADD s =
     (case get_operands s of Inl e \<Rightarrow> Inl e
      | Inr s1 \<Rightarrow>
          (let sv = ap_value (src s1); dv = ap_value (dst s1);
               r = (sv + dv) AND 0xFFFF
           in write_dst_reg r
                (s1\<lparr>result := r,
                    cc_v := (if sv AND 0x8000 = dv AND 0x8000 \<and> sv AND 0x8000 \<noteq> r AND 0x8000
                             then 1 else 0),
                    cc_c := (if r <s sv + dv then 1 else 0),
                    cc_n := (if r AND 0x8000 \<noteq> 0 then 1 else 0),
                    cc_z := (if r = 0 then 1 else 0)\<rparr>)))"

definition do_SUB :: "machine \<Rightarrow> error + machine" where
  "do_SUB s =
     (case get_operands s of Inl e \<Rightarrow> Inl e
      | Inr s1 \<Rightarrow>
          (let sv = ap_value (src s1); dv = ap_value (dst s1);
               r0 = dv - sv;
               c = signed_drop_bit 16 (r0 AND 0x10000);
               r = r0 AND 0xFFFF
           in write_dst_reg r
                (s1\<lparr>result := r, cc_c := c,
                    cc_n := (if r AND 0x8000 \<noteq> 0 then 1 else 0),
                    cc_z := (if r = 0 then 1 else 0),
                    cc_v := (if sv AND 0x8000 \<noteq> dv AND 0x8000 \<and> sv AND 0x8000 = r AND 0x8000
                             then 1 else 0)\<rparr>)))"

definition do_BR :: "machine \<Rightarrow> error + machine" where
  "do_BR s =
     (let s1 = s\<lparr>br_exec := br_exec s + 1, br_taken := br_taken s + 1\<rparr>;
          offset = sign_extend (instruction s1 AND 0xFF);
          new_addr = (reg s1 7 + push_bit 1 offset) AND 0xFFFF
      in Inr (s1\<lparr>reg := (reg s1)(7 := new_addr)\<rparr>))"

definition do_BEQ :: "machine \<Rightarrow> error + machine" where
  "do_BEQ s =
     (let s1 = s\<lparr>br_exec := br_exec s + 1\<rparr>;
          offset = instruction s1 AND 0xFF;
          new_addr = reg s1 7 + push_bit 1 offset
      in if cc_z s1 \<noteq> 0
         then Inr (s1\<lparr>reg := (reg s1)(7 := new_addr), br_taken := br_taken s1 + 1\<rparr>)
         else Inr s1)"

definition do_ASL :: "machine \<Rightarrow> error + machine" where
  "do_ASL s =
     (case get_operand Dst s of Inl e \<Rightarrow> Inl e
      | Inr s1 \<Rightarrow>
          (case reg_index (ap_reg (dst s1)) of None \<Rightarrow> Inl Mem_fault
           | Some r \<Rightarrow>
               (let res = uint16_t (push_bit 1 (reg s1 r));
                    n = (if res AND 0x8000 \<noteq> 0 then 1 else 0);
                    c = (if ap_value (dst s1) AND 0x8000 \<noteq> 0 then 1 else 0)
                in Inr (s1\<lparr>result := res, cc_n := n,
                            cc_z := (if res = 0 then 1 else 0),
                            cc_c := c, cc_v := c XOR n,
                            reg := (reg s1)(r := res)\<rparr>))))"

definition do_ASR :: "machine \<Rightarrow> error + machine" where
  "do_ASR s =
     (case get_operand Dst s of Inl e \<Rightarrow> Inl e
      | Inr s1 \<Rightarrow>
          (case reg_index (ap_reg (dst s1)) of None \<Rightarrow> Inl Mem_fault
           | Some r \<Rightarrow>
               (let res = uint16_t (signed_drop_bit 1 (signed_drop_bit 16 (push_bit 16 (reg s1 r))));
                    n = (if res AND 0x8000 \<noteq> 0 then 1 else 0);
                    c = (if ap_value (dst s1) AND 1 \<noteq> 0 then 1 else 0)
                in Inr (s1\<lparr>result := res, cc_n := n,
                            cc_z := (if res = 0 then 1 else 0),
                            cc_c := c, cc_v := c XOR n,
                            reg := (reg s1)(r := res)\<rparr>))))"

definition do_SOB :: "machine \<Rightarrow> error + machine" where
  "do_SOB s =
     (case get_operand Src (s\<lparr>br_exec := br_exec s + 1, src := (src s)\<lparr>ap_mode := 0\<rparr>\<rparr>) of
        Inl e \<Rightarrow> Inl e
      | Inr s1 \<Rightarrow>
          (case reg_index (ap_reg (src s1)) of None \<Rightarrow> Inl Mem_fault
           | Some r \<Rightarrow>
               (let offset = sign_extend (instruction s1 AND 0x3F);
                    s2 = s1\<lparr>reg := (reg s1)(r := reg s1 r - 1)\<rparr>
                in if reg s2 r \<noteq> 0
                   then Inr (s2\<lparr>br_taken := br_taken s2 + 1,
                                 reg := (reg s2)(7 := (reg s2 7 - push_bit 1 offset) AND 0xFFFF)\<rparr>)
                   else Inr s2)))"

definition do_BNE :: "machine \<Rightarrow> error + machine" where
  "do_BNE s =
     (let s1 = s\<lparr>br_exec := br_exec s + 1\<rparr>;
          offset = sign_extend (instruction s1 AND 0xFF);
          new_addr = reg s1 7 + push_bit 1 offset
      in if cc_z s1 = 0
         then Inr (s1\<lparr>br_taken := br_taken s1 + 1, reg := (reg s1)(7 := new_addr)\<rparr>)
         else Inr s1)"

text \<open>
  The three \<open>switch\<close> statements of the loop body, tried in the order of the source on
  \<open>instruction >> 12\<close>, \<open>instruction >> 6\<close> and \<open>instruction >> 9\<close>, and the
  BAD INSTRUCTION exit when none has a matching case.
\<close>

definition execute :: "machine \<Rightarrow> error + machine" where
  "execute s0 =
     (let s1 = (decode_fields s0)\<lparr>opcode := drop_bit 12 (instruction s0)\<rparr>
      in if opcode s1 = 1 then do_MOV s1
         else if opcode s1 = 2 then do_CMP s1
         else if opcode s1 = 6 then do_ADD s1
         else if opcode s1 = 14 then do_SUB s1
         else
          (let s2 = s1\<lparr>opcode := drop_bit 6 (instruction s1)\<rparr>
           in if opcode s2 = 4 then do_BR s2
              else if opcode s2 = 12 then do_BEQ s2
              else if opcode s2 = 51 then do_ASL s2
              else if opcode s2 = 50 then do_ASR s2
              else
               (let s3 = s2\<lparr>opcode := drop_bit 9 (instruction s2)\<rparr>
                in if opcode s3 = 63 then do_SOB s3
                   else if opcode s3 = 1 then do_BNE s3
                   else Inl (Bad_instruction (reg s3 7 - 2)))))"

text \<open>One pass through the body of \<open>while(!halt)\<close>: the fetch, the halt test, the instruction.\<close>

definition step :: "machine \<Rightarrow> error + machine" where
  "step s =
     (case mem_at s (reg s 7) of None \<Rightarrow> Inl Mem_fault
      | Some w \<Rightarrow>
          (let s1 = s\<lparr>instruction := w, instr_exec := instr_exec s + 1,
                      instr_fetch := instr_fetch s + 1,
                      reg := (reg s)(7 := (reg s 7 + 2) AND 0xFFFF)\<rparr>
           in if instruction s1 = 0 then Inr (s1\<lparr>halt := 1\<rparr>) else execute s1))"

text \<open>The loop may run forever: \<open>None\<close> is the run that never leaves it.\<close>

partial_function (option) run :: "machine \<Rightarrow> (error + machine) option" where
  "run s =
     (if halt s \<noteq> 0 then Some (Inr s)
      else (case step s of Inl e \<Rightarrow> Some (Inl e) | Inr s' \<Rightarrow> run s'))"

definition main :: "cint list \<Rightarrow> (error + machine) option" where
  "main ks = (case load_program ks init of Inl e \<Rightarrow> Some (Inl e) | Inr s \<Rightarrow> run s)"

text \<open>
  The argument of \<open>exit\<close> or the value \<open>main\<close> returns; a run that aborts or leaves the
  arrays has none.
\<close>

definition exit_code :: "error + machine \<Rightarrow> int option" where
  "exit_code r =
     (case r of Inr s \<Rightarrow> Some 0
      | Inl (Bad_instruction a) \<Rightarrow> Some (- 1)
      | Inl Assert_failure \<Rightarrow> None
      | Inl Mem_fault \<Rightarrow> None)"

text \<open>
  At most \<open>n\<close> passes through the body of \<open>while(!halt)\<close>: the state in which the loop
  stands after them, or the error that ended the run.
\<close>

fun steps :: "nat \<Rightarrow> machine \<Rightarrow> error + machine" where
  "steps 0 s = Inr s"
| "steps (Suc n) s =
     (if halt s \<noteq> 0 then Inr s
      else (case step s of Inl e \<Rightarrow> Inl e | Inr s' \<Rightarrow> steps n s'))"

text \<open>\<open>main\<close> cut off after at most \<open>n\<close> passes through the loop.\<close>

definition main_steps :: "nat \<Rightarrow> cint list \<Rightarrow> error + machine" where
  "main_steps n ks = (case load_program ks init of Inl e \<Rightarrow> Inl e | Inr s \<Rightarrow> steps n s)"

section \<open>Readings of the specification\<close>

text \<open>
  The SOB offset as C8 words it, "the sign-extended low 6 bits of the instruction": the
  6-bit field read as a two's complement number, bit 5 being the sign.
\<close>

definition claimed_SOB_offset :: "cint \<Rightarrow> cint" where
  "claimed_SOB_offset w = signed_take_bit 5 (w AND 0x3F)"

text \<open>
  The flags of a subtraction as the specification words the reference algorithm, on
  unbounded integers: the result is the difference destination minus source masked to 16
  bits; N is its bit 15 and Z says that it is zero; V is 1 iff the sign bits (bit 15) of the
  two operands differ and the sign bit of the result equals that of the source; C is
  bit 16 of the unmasked difference. The result is (N, Z, V, C).
\<close>

definition ref_SUB_flags :: "int \<Rightarrow> int \<Rightarrow> cint \<times> cint \<times> cint \<times> cint" where
  "ref_SUB_flags srcv dstv =
     (let diff = dstv - srcv;
          res = diff mod 65536
      in (of_bool (bit res 15),
          of_bool (res = 0),
          of_bool (bit srcv 15 \<noteq> bit dstv 15 \<and> bit res 15 = bit srcv 15),
          of_bool (bit diff 16)))"

declare run.simps [code]

section \<open>Evaluating the simulator on concrete programs\<close>

lemmas pdp11_defs =
  main_def load_program_def init_def zero_phrase_def MEM_SIZE_def mem_index_def mem_at_def
  reg_index_def phrase_def set_phrase_def deferred_def get_REG_def get_REG_DEF_def
  get_AUTO_INC_def get_AUTO_INC_DEF_def get_AUTO_DEC_def get_AUTO_DEC_DEF_def get_INDEX_def
  get_INDEX_DEF_def get_operand_def uint16_t_def sign_extend_def decode_fields_def
  get_operands_def write_dst_reg_def do_MOV_def do_CMP_def do_ADD_def do_SUB_def do_BR_def
  do_BEQ_def do_ASL_def do_ASR_def do_SOB_def do_BNE_def execute_def step_def Let_def
  word_sless_alt

section \<open>The halt instruction and the instruction count\<close>

lemma halt_step:
  assumes "mem_at s (reg s 7) = Some 0"
  shows "\<exists>s'. step s = Inr s' \<and> halt s' = 1 \<and> instr_exec s' = instr_exec s + 1"
  using assms by (simp add: step_def)

text \<open>
  The program \<open>012700 000005 062700 000003 000000\<close> (MOV #5,R0; ADD #3,R0; halt), and the
  empty program.
\<close>

lemma run_mov_add:
  "(case main [0x15C0, 5, 0x65C0, 3, 0] of
      Some (Inr s) \<Rightarrow>
        reg s 0 = 8 \<and> instr_exec s = 3 \<and> br_exec s = 0 \<and> br_taken s = 0 \<and> halt s = 1
    | _ \<Rightarrow> False)"
  by (simp add: pdp11_defs run.simps)

lemma run_empty:
  "(case main [] of Some (Inr s) \<Rightarrow> instr_exec s = 1 \<and> halt s = 1 | _ \<Rightarrow> False)"
  by (simp add: pdp11_defs run.simps)

text \<open>
  C2, as the code has it: \<open>instr_exec++\<close> stands before the test for the halt word, so the
  halt instruction is counted. Every step that fetches the zero word sets \<open>halt\<close> and adds
  one to the instructions executed; MOV #5,R0; ADD #3,R0; halt ends with R0 = 8, three
  instructions executed and no branch; the empty input halts on the first word with one
  instruction executed.
\<close>

theorem halt_is_counted:
  "(\<forall>s. mem_at s (reg s 7) = Some 0 \<longrightarrow>
      (\<exists>s'. step s = Inr s' \<and> halt s' = 1 \<and> instr_exec s' = instr_exec s + 1))
   \<and> (\<exists>s. main [0x15C0, 5, 0x65C0, 3, 0] = Some (Inr s) \<and> reg s 0 = 8 \<and> instr_exec s = 3
          \<and> br_exec s = 0 \<and> br_taken s = 0 \<and> halt s = 1)
   \<and> (\<exists>s. main [] = Some (Inr s) \<and> instr_exec s = 1 \<and> halt s = 1)"
proof (intro conjI allI impI)
  fix s assume "mem_at s (reg s 7) = Some 0"
  then show "\<exists>s'. step s = Inr s' \<and> halt s' = 1 \<and> instr_exec s' = instr_exec s + 1"
    by (rule halt_step)
next
  show "\<exists>s. main [0x15C0, 5, 0x65C0, 3, 0] = Some (Inr s) \<and> reg s 0 = 8 \<and> instr_exec s = 3
          \<and> br_exec s = 0 \<and> br_taken s = 0 \<and> halt s = 1"
    using run_mov_add by (auto split: option.splits sum.splits)
next
  show "\<exists>s. main [] = Some (Inr s) \<and> instr_exec s = 1 \<and> halt s = 1"
    using run_empty by (auto split: option.splits sum.splits)
qed

text \<open>The first part at the initial state, whose first word is the halt word.\<close>

theorem halt_is_counted_witness:
  "mem_at init (reg init 7) = Some 0 \<and>
   (\<exists>s'. step init = Inr s' \<and> halt s' = 1 \<and> instr_exec s' = instr_exec init + 1)"
proof -
  have h: "mem_at init (reg init 7) = Some 0"
    by (simp add: init_def mem_at_def mem_index_def MEM_SIZE_def)
  from halt_is_counted have "mem_at init (reg init 7) = Some 0 \<longrightarrow>
      (\<exists>s'. step init = Inr s' \<and> halt s' = 1 \<and> instr_exec s' = instr_exec init + 1)"
    by blast
  with h show ?thesis by blast
qed

text \<open>
  C2 as stated (two instructions counted, none for the empty input) fails: the counts
  are three and one.
\<close>

theorem halt_not_counted_counterexample:
  "map_option (map_sum id instr_exec) (main [0x15C0, 5, 0x65C0, 3, 0]) = Some (Inr 3) \<and>
   map_option (map_sum id instr_exec) (main []) = Some (Inr 1)"
  by (simp add: pdp11_defs run.simps)

section \<open>Decoding\<close>

lemma and7_cases: "(w AND 7 :: cint) \<in> {0, 1, 2, 3, 4, 5, 6, 7}"
proof -
  have "w AND 7 \<le> 7" by (rule word_and_le1)
  then have "unat (w AND 7) \<le> 7" by (simp add: word_le_nat_alt)
  then have "unat (w AND 7) \<in> {0, 1, 2, 3, 4, 5, 6, 7}" by auto
  then show ?thesis by (auto simp: word_unat_eq_iff)
qed

lemma reg_index_and7: "reg_index (w AND 7) = Some (unat (w AND 7))"
  using and7_cases [of w] by (auto simp: reg_index_def)

lemma and_8000_bit: "(v AND 0x8000 \<noteq> 0) = bit (v :: cint) 15"
  using bit_iff_and_push_bit_not_eq_0 [of v 15] by simp

lemma instruction_decode_fields [simp]: "instruction (decode_fields s) = instruction s"
  by (simp add: decode_fields_def Let_def)

lemma decode_fields_phrases [simp]:
  "ap_mode (dst (decode_fields s)) = drop_bit 3 (instruction s) AND 7"
  "ap_reg (dst (decode_fields s)) = instruction s AND 7"
  "ap_mode (src (decode_fields s)) = drop_bit 9 (instruction s) AND 7"
  "ap_reg (src (decode_fields s)) = drop_bit 6 (instruction s) AND 7"
  by (simp_all add: decode_fields_def Let_def)

text \<open>The three opcode fields overlap: each is a shift of the next narrower one.\<close>

lemma drop_12_of_6: "drop_bit 6 (w :: cint) = c \<Longrightarrow> drop_bit 12 w = drop_bit 6 c"
  by auto

lemma drop_12_of_9: "drop_bit 9 (w :: cint) = c \<Longrightarrow> drop_bit 12 w = drop_bit 3 c"
  by auto

lemma drop_9_of_6: "drop_bit 6 (w :: cint) = c \<Longrightarrow> drop_bit 9 w = drop_bit 3 c"
  by auto

lemma execute_MOV:
  "drop_bit 12 (instruction s) = 1 \<Longrightarrow> execute s = do_MOV ((decode_fields s)\<lparr>opcode := 1\<rparr>)"
  by (simp add: execute_def Let_def)

section \<open>What get_operand leaves alone\<close>

lemmas get_defs =
  get_operand_def get_REG_def get_REG_DEF_def get_AUTO_INC_def get_AUTO_INC_DEF_def
  get_AUTO_DEC_def get_AUTO_DEC_DEF_def get_INDEX_def get_INDEX_DEF_def phrase_def
  set_phrase_def Let_def

lemma get_operand_frame:
  assumes "get_operand k s = Inr s'"
  shows "mem s' = mem s" "cc_n s' = cc_n s" "cc_z s' = cc_z s" "cc_v s' = cc_v s"
    "cc_c s' = cc_c s" "halt s' = halt s" "instruction s' = instruction s"
    "opcode s' = opcode s" "result s' = result s" "br_exec s' = br_exec s"
    "br_taken s' = br_taken s" "instr_exec s' = instr_exec s"
    "words_written s' = words_written s"
  using assms
  by (auto simp: get_defs split: if_splits option.splits operand.splits prod.splits)

lemma get_operand_Dst_other:
  assumes "get_operand Dst s = Inr s'"
  shows "src s' = src s" "ap_mode (dst s') = ap_mode (dst s)" "ap_reg (dst s') = ap_reg (dst s)"
  using assms
  by (auto simp: get_defs split: if_splits option.splits prod.splits)

lemma get_operand_Src_other:
  assumes "get_operand Src s = Inr s'"
  shows "dst s' = dst s" "ap_mode (src s') = ap_mode (src s)" "ap_reg (src s') = ap_reg (src s)"
  using assms
  by (auto simp: get_defs split: if_splits option.splits prod.splits)

lemma get_AUTO_INC_addr:
  assumes "get_operand Dst s = Inr s'" "ap_mode (dst s) = 2"
  shows "\<exists>r i. reg_index (ap_reg (dst s)) = Some r \<and> ap_addr (dst s') = reg s r \<and>
     mem_index (ap_addr (dst s')) = Some i \<and> ap_value (dst s') = mem s i"
  using assms
  by (auto simp: get_defs mem_at_def split: if_splits option.splits prod.splits)

section \<open>MOV\<close>

text \<open>
  C5. A word with \<open>instruction >> 12 = 1\<close> is a MOV. When both operands resolve (to the
  state \<open>s2\<close>), the instruction completes; N is bit 15 of the source value, Z says that
  the source value is zero, V is 0 and C keeps its value. When the destination mode is 2
  (AutoIncrement) the source value is stored in memory at the destination's effective
  address and the data words written grow by one, the registers staying as operand
  resolution left them; in every other mode memory and the counter are unchanged and the
  source value is written to the destination register.
\<close>

theorem MOV_effect:
  assumes mov: "drop_bit 12 (instruction s) = 1"
    and ops: "get_operands ((decode_fields s)\<lparr>opcode := 1\<rparr>) = Inr s2"
  shows "\<exists>s'. execute s = Inr s' \<and>
      cc_n s' = (if bit (ap_value (src s2)) 15 then 1 else 0) \<and>
      cc_z s' = (if ap_value (src s2) = 0 then 1 else 0) \<and>
      cc_v s' = 0 \<and> cc_c s' = cc_c s \<and>
      (if drop_bit 3 (instruction s) AND 7 = 2
       then (\<exists>i. mem_index (ap_addr (dst s2)) = Some i \<and>
                 mem s' = (mem s)(i := ap_value (src s2))) \<and>
            words_written s' = words_written s + 1 \<and> reg s' = reg s2
       else mem s' = mem s \<and> words_written s' = words_written s \<and>
            reg s' = (reg s2)(unat (instruction s AND 7) := ap_value (src s2)))"
proof -
  let ?d = "(decode_fields s)\<lparr>opcode := 1\<rparr>"
  from ops obtain s1 where s1: "get_operand Src ?d = Inr s1" and s2: "get_operand Dst s1 = Inr s2"
    by (auto simp: get_operands_def split: sum.splits)
  have fr1: "mem s1 = mem s" "cc_c s1 = cc_c s" "words_written s1 = words_written s"
    using get_operand_frame [OF s1] by (simp_all add: decode_fields_def Let_def)
  have fr2: "mem s2 = mem s" "cc_c s2 = cc_c s" "words_written s2 = words_written s"
    using get_operand_frame [OF s2] fr1 by simp_all
  have d1: "ap_mode (dst s1) = drop_bit 3 (instruction s) AND 7"
    "ap_reg (dst s1) = instruction s AND 7"
    using get_operand_Src_other [OF s1] by simp_all
  have d2: "ap_mode (dst s2) = drop_bit 3 (instruction s) AND 7"
    "ap_reg (dst s2) = instruction s AND 7"
    using get_operand_Dst_other [OF s2] d1 by simp_all
  show ?thesis
  proof (cases "drop_bit 3 (instruction s) AND 7 = 2")
    case True
    with get_AUTO_INC_addr [OF s2] d1 obtain i where "mem_index (ap_addr (dst s2)) = Some i"
      by auto
    with True show ?thesis
      by (simp add: execute_MOV [OF mov] do_MOV_def ops d2 fr2 and_8000_bit Let_def)
  next
    case False
    then show ?thesis
      by (simp add: execute_MOV [OF mov] do_MOV_def ops d2 fr2 and_8000_bit Let_def
          write_dst_reg_def reg_index_and7)
  qed
qed

text \<open>
  MOV #5,(R1)+ (\<open>012721\<close>) with the PC at 2, the immediate 5 in the word there and R1 = 8:
  the 5 goes to the word at address 8 and one data word is written.
\<close>

theorem MOV_effect_witness:
  "drop_bit 12 (instruction (init\<lparr>instruction := 0x15D1, reg := (\<lambda>_. 0)(7 := 2, 1 := 8),
      mem := (\<lambda>_. 0)(1 := 5)\<rparr>)) = 1 \<and>
   (\<exists>s2. get_operands ((decode_fields (init\<lparr>instruction := 0x15D1,
              reg := (\<lambda>_. 0)(7 := 2, 1 := 8), mem := (\<lambda>_. 0)(1 := 5)\<rparr>))\<lparr>opcode := 1\<rparr>) = Inr s2 \<and>
          ap_value (src s2) = 5 \<and> ap_addr (dst s2) = 8) \<and>
   (\<exists>s'. execute (init\<lparr>instruction := 0x15D1, reg := (\<lambda>_. 0)(7 := 2, 1 := 8),
              mem := (\<lambda>_. 0)(1 := 5)\<rparr>) = Inr s' \<and>
      cc_n s' = 0 \<and> cc_z s' = 0 \<and> cc_v s' = 0 \<and> cc_c s' = 0 \<and>
      mem s' = (\<lambda>_. 0)(1 := 5, 4 := 5) \<and> words_written s' = 1 \<and> reg s' 1 = 10)"
proof -
  let ?s = "init\<lparr>instruction := 0x15D1, reg := (\<lambda>_. 0)(7 := 2, 1 := 8), mem := (\<lambda>_. 0)(1 := 5)\<rparr>"
  have h1: "drop_bit 12 (instruction ?s) = 1" by simp
  have "\<exists>s2. get_operands ((decode_fields ?s)\<lparr>opcode := 1\<rparr>) = Inr s2 \<and>
      ap_value (src s2) = 5 \<and> ap_addr (dst s2) = 8 \<and> reg s2 1 = 10"
    by (simp add: pdp11_defs)
  then obtain s2 where h2: "get_operands ((decode_fields ?s)\<lparr>opcode := 1\<rparr>) = Inr s2"
    and v: "ap_value (src s2) = 5" "ap_addr (dst s2) = 8" "reg s2 1 = 10"
    by blast
  from MOV_effect [OF h1 h2] v have
    "\<exists>s'. execute ?s = Inr s' \<and>
      cc_n s' = 0 \<and> cc_z s' = 0 \<and> cc_v s' = 0 \<and> cc_c s' = 0 \<and>
      mem s' = (\<lambda>_. 0)(1 := 5, 4 := 5) \<and> words_written s' = 1 \<and> reg s' 1 = 10"
    by (auto simp add: init_def mem_index_def MEM_SIZE_def)
  with h1 h2 v show ?thesis by blast
qed

section \<open>Which case of which switch runs\<close>

lemma execute_BR:
  "drop_bit 6 (instruction s) = 4 \<Longrightarrow> execute s = do_BR ((decode_fields s)\<lparr>opcode := 4\<rparr>)"
  by (simp add: execute_def Let_def drop_12_of_6)

lemma execute_BEQ:
  "drop_bit 6 (instruction s) = 12 \<Longrightarrow> execute s = do_BEQ ((decode_fields s)\<lparr>opcode := 12\<rparr>)"
  by (simp add: execute_def Let_def drop_12_of_6)

lemma execute_ASL:
  "drop_bit 6 (instruction s) = 51 \<Longrightarrow> execute s = do_ASL ((decode_fields s)\<lparr>opcode := 51\<rparr>)"
  by (simp add: execute_def Let_def drop_12_of_6)

lemma execute_ASR:
  "drop_bit 6 (instruction s) = 50 \<Longrightarrow> execute s = do_ASR ((decode_fields s)\<lparr>opcode := 50\<rparr>)"
  by (simp add: execute_def Let_def drop_12_of_6)

lemma execute_SOB:
  assumes "drop_bit 9 (instruction s) = 63"
  shows "execute s = do_SOB ((decode_fields s)\<lparr>opcode := 63\<rparr>)"
proof -
  have "drop_bit 6 (instruction s) \<notin> {4, 12, 51, 50}"
    using assms by (auto dest: drop_9_of_6)
  then show ?thesis
    using assms by (simp add: execute_def Let_def drop_12_of_9)
qed

lemma execute_BNE:
  assumes "drop_bit 9 (instruction s) = 1" "drop_bit 6 (instruction s) \<noteq> 12"
  shows "execute s = do_BNE ((decode_fields s)\<lparr>opcode := 1\<rparr>)"
proof -
  have "drop_bit 6 (instruction s) \<notin> {4, 12, 51, 50}"
    using assms by (auto dest: drop_9_of_6)
  then show ?thesis
    using assms by (simp add: execute_def Let_def drop_12_of_9)
qed

text \<open>
  The shift pair \<open>offset << 24; offset >> 24\<close> is the sign extension from bit 7. On the
  low 8 bits of a word it gives the signed byte; on a 6-bit value it changes nothing.
\<close>

lemma sign_extend_eq: "sign_extend x = signed_take_bit 7 x"
  unfolding sign_extend_def
proof (rule bit_eqI)
  fix n
  show "bit (signed_drop_bit 24 (push_bit 24 x)) n = bit (signed_take_bit 7 x) n"
    by (cases "n = 7") (auto simp: bit_simps min_def)
qed

lemma sign_extend_low8: "sign_extend (w AND 0xFF) = signed_take_bit 7 w"
proof -
  have "(0xFF :: cint) = mask 8" by (simp add: mask_eq_exp_minus_1)
  then have "w AND 0xFF = take_bit 8 w" by (simp add: take_bit_eq_mask)
  then show ?thesis by (simp add: sign_extend_eq signed_take_bit_take_bit)
qed

lemma sign_extend_low6: "sign_extend (w AND 0x3F) = w AND 0x3F"
proof -
  have m: "(0x3F :: cint) = mask 6" by (simp add: mask_eq_exp_minus_1)
  have "signed_take_bit 7 (take_bit 6 w) = take_bit 6 w"
    by (rule bit_eqI) (auto simp: bit_simps min_def)
  then show ?thesis by (simp add: sign_extend_eq m take_bit_eq_mask)
qed

section \<open>The four branch instructions\<close>

lemma decode_fields_frame [simp]:
  "reg (decode_fields s) = reg s" "mem (decode_fields s) = mem s"
  "cc_n (decode_fields s) = cc_n s" "cc_z (decode_fields s) = cc_z s"
  "cc_v (decode_fields s) = cc_v s" "cc_c (decode_fields s) = cc_c s"
  "br_exec (decode_fields s) = br_exec s" "br_taken (decode_fields s) = br_taken s"
  "words_written (decode_fields s) = words_written s" "halt (decode_fields s) = halt s"
  by (simp_all add: decode_fields_def Let_def)

lemma BR_result:
  assumes "drop_bit 6 (instruction s) = 4"
  shows "\<exists>s'. execute s = Inr s' \<and> br_exec s' = br_exec s + 1 \<and> br_taken s' = br_taken s + 1 \<and>
     reg s' = (reg s)(7 := (reg s 7 + 2 * signed_take_bit 7 (instruction s)) AND 0xFFFF)"
  by (simp add: execute_BR [OF assms] do_BR_def Let_def sign_extend_low8 push_bit_eq_mult
      mult.commute)

lemma BEQ_result:
  assumes "drop_bit 6 (instruction s) = 12"
  shows "\<exists>s'. execute s = Inr s' \<and> br_exec s' = br_exec s + 1 \<and>
     br_taken s' = br_taken s + (if cc_z s \<noteq> 0 then 1 else 0) \<and>
     reg s' = (if cc_z s \<noteq> 0 then (reg s)(7 := reg s 7 + 2 * (instruction s AND 0xFF)) else reg s)"
  by (simp add: execute_BEQ [OF assms] do_BEQ_def Let_def push_bit_eq_mult mult.commute)

lemma BNE_result:
  assumes "drop_bit 9 (instruction s) = 1" "drop_bit 6 (instruction s) \<noteq> 12"
  shows "\<exists>s'. execute s = Inr s' \<and> br_exec s' = br_exec s + 1 \<and>
     br_taken s' = br_taken s + (if cc_z s = 0 then 1 else 0) \<and>
     reg s' = (if cc_z s = 0 then (reg s)(7 := reg s 7 + 2 * signed_take_bit 7 (instruction s))
               else reg s)"
  by (simp add: execute_BNE [OF assms] do_BNE_def Let_def sign_extend_low8 push_bit_eq_mult
      mult.commute)

lemma SOB_result:
  assumes "drop_bit 9 (instruction s) = 63"
  shows "\<exists>s'. execute s = Inr s' \<and> br_exec s' = br_exec s + 1 \<and> instruction s' = instruction s \<and>
     mem s' = mem s \<and> halt s' = halt s \<and>
     (let r = unat (drop_bit 6 (instruction s) AND 7);
          d = reg s r - 1;
          regs1 = (reg s)(r := d)
      in br_taken s' = br_taken s + (if d \<noteq> 0 then 1 else 0) \<and>
         reg s' = (if d \<noteq> 0
                   then regs1(7 := (regs1 7 - 2 * sign_extend (instruction s AND 0x3F)) AND 0xFFFF)
                   else regs1))"
  by (simp add: execute_SOB [OF assms] do_SOB_def get_defs reg_index_and7 push_bit_eq_mult
      mult.commute)

text \<open>
  C7. A word decoded as BR (\<open>instruction >> 6 = 4\<close>), BEQ (\<open>instruction >> 6 = 12\<close>),
  BNE (\<open>instruction >> 9 = 1\<close>, not caught as BEQ before) or SOB (\<open>instruction >> 9 = 63\<close>)
  always completes and adds exactly one to the branches executed. The branches taken grow
  by one for BR always, for BEQ exactly when Z is set, for BNE exactly when Z is clear,
  for SOB exactly when the decremented register is not zero, and stay as they are
  otherwise.
\<close>

theorem branch_counters:
  "(drop_bit 6 (instruction s) = 4 \<longrightarrow>
      (\<exists>s'. execute s = Inr s' \<and> br_exec s' = br_exec s + 1 \<and> br_taken s' = br_taken s + 1))
   \<and> (drop_bit 6 (instruction s) = 12 \<longrightarrow>
      (\<exists>s'. execute s = Inr s' \<and> br_exec s' = br_exec s + 1 \<and>
            br_taken s' = br_taken s + (if cc_z s \<noteq> 0 then 1 else 0)))
   \<and> (drop_bit 9 (instruction s) = 1 \<and> drop_bit 6 (instruction s) \<noteq> 12 \<longrightarrow>
      (\<exists>s'. execute s = Inr s' \<and> br_exec s' = br_exec s + 1 \<and>
            br_taken s' = br_taken s + (if cc_z s = 0 then 1 else 0)))
   \<and> (drop_bit 9 (instruction s) = 63 \<longrightarrow>
      (\<exists>s'. execute s = Inr s' \<and> br_exec s' = br_exec s + 1 \<and>
            br_taken s' = br_taken s +
              (if reg s (unat (drop_bit 6 (instruction s) AND 7)) - 1 \<noteq> 0 then 1 else 0)))"
proof (intro conjI impI)
  assume "drop_bit 6 (instruction s) = 4"
  from BR_result [OF this]
  show "\<exists>s'. execute s = Inr s' \<and> br_exec s' = br_exec s + 1 \<and> br_taken s' = br_taken s + 1"
    by blast
next
  assume "drop_bit 6 (instruction s) = 12"
  from BEQ_result [OF this]
  show "\<exists>s'. execute s = Inr s' \<and> br_exec s' = br_exec s + 1 \<and>
            br_taken s' = br_taken s + (if cc_z s \<noteq> 0 then 1 else 0)"
    by blast
next
  assume "drop_bit 9 (instruction s) = 1 \<and> drop_bit 6 (instruction s) \<noteq> 12"
  then have "drop_bit 9 (instruction s) = 1" "drop_bit 6 (instruction s) \<noteq> 12" by simp_all
  from BNE_result [OF this]
  show "\<exists>s'. execute s = Inr s' \<and> br_exec s' = br_exec s + 1 \<and>
            br_taken s' = br_taken s + (if cc_z s = 0 then 1 else 0)"
    by blast
next
  assume "drop_bit 9 (instruction s) = 63"
  from SOB_result [OF this]
  show "\<exists>s'. execute s = Inr s' \<and> br_exec s' = br_exec s + 1 \<and>
            br_taken s' = br_taken s +
              (if reg s (unat (drop_bit 6 (instruction s) AND 7)) - 1 \<noteq> 0 then 1 else 0)"
    unfolding Let_def by blast
qed

text \<open>
  BR +3 (\<open>000403\<close>); BEQ +3 (\<open>001403\<close>) with Z clear, not taken; BNE -2 (\<open>001376\<close>) with
  Z set, not taken; SOB R0,1 (\<open>077001\<close>) with R0 = 2, taken.
\<close>

theorem branch_counters_witness:
  "drop_bit 6 (instruction (init\<lparr>instruction := 0x103\<rparr>)) = 4 \<and>
   (\<exists>s'. execute (init\<lparr>instruction := 0x103\<rparr>) = Inr s' \<and> br_exec s' = 1 \<and> br_taken s' = 1) \<and>
   drop_bit 6 (instruction (init\<lparr>instruction := 0x303\<rparr>)) = 12 \<and>
   (\<exists>s'. execute (init\<lparr>instruction := 0x303\<rparr>) = Inr s' \<and> br_exec s' = 1 \<and> br_taken s' = 0) \<and>
   drop_bit 9 (instruction (init\<lparr>instruction := 0x2FE, cc_z := 1\<rparr>)) = 1 \<and>
   drop_bit 6 (instruction (init\<lparr>instruction := 0x2FE, cc_z := 1\<rparr>)) \<noteq> 12 \<and>
   (\<exists>s'. execute (init\<lparr>instruction := 0x2FE, cc_z := 1\<rparr>) = Inr s' \<and> br_exec s' = 1 \<and>
      br_taken s' = 0) \<and>
   drop_bit 9 (instruction (init\<lparr>instruction := 0x7E01, reg := (\<lambda>_. 0)(0 := 2)\<rparr>)) = 63 \<and>
   (\<exists>s'. execute (init\<lparr>instruction := 0x7E01, reg := (\<lambda>_. 0)(0 := 2)\<rparr>) = Inr s' \<and>
      br_exec s' = 1 \<and> br_taken s' = 1)"
proof -
  have h1: "drop_bit 6 (instruction (init\<lparr>instruction := 0x103\<rparr>)) = 4" by simp
  have h2: "drop_bit 6 (instruction (init\<lparr>instruction := 0x303\<rparr>)) = 12" by simp
  have h3: "drop_bit 9 (instruction (init\<lparr>instruction := 0x2FE, cc_z := 1\<rparr>)) = 1 \<and>
    drop_bit 6 (instruction (init\<lparr>instruction := 0x2FE, cc_z := 1\<rparr>)) \<noteq> 12" by simp
  have h4: "drop_bit 9 (instruction (init\<lparr>instruction := 0x7E01, reg := (\<lambda>_. 0)(0 := 2)\<rparr>)) = 63"
    by simp
  from h1 branch_counters [of "init\<lparr>instruction := 0x103\<rparr>"]
  have c1: "\<exists>s'. execute (init\<lparr>instruction := 0x103\<rparr>) = Inr s' \<and> br_exec s' = 1 \<and> br_taken s' = 1"
    by (simp add: init_def)
  from h2 branch_counters [of "init\<lparr>instruction := 0x303\<rparr>"]
  have c2: "\<exists>s'. execute (init\<lparr>instruction := 0x303\<rparr>) = Inr s' \<and> br_exec s' = 1 \<and> br_taken s' = 0"
    by (simp add: init_def)
  from h3 branch_counters [of "init\<lparr>instruction := 0x2FE, cc_z := 1\<rparr>"]
  have c3: "\<exists>s'. execute (init\<lparr>instruction := 0x2FE, cc_z := 1\<rparr>) = Inr s' \<and> br_exec s' = 1 \<and>
      br_taken s' = 0"
    by (simp add: init_def)
  from h4 branch_counters [of "init\<lparr>instruction := 0x7E01, reg := (\<lambda>_. 0)(0 := 2)\<rparr>"]
  have c4: "\<exists>s'. execute (init\<lparr>instruction := 0x7E01, reg := (\<lambda>_. 0)(0 := 2)\<rparr>) = Inr s' \<and>
      br_exec s' = 1 \<and> br_taken s' = 1"
    by (simp add: init_def)
  from h1 h2 h3 h4 c1 c2 c3 c4 show ?thesis by blast
qed

section \<open>BEQ against BNE and BR\<close>

text \<open>With bit 7 set, the unsigned and the signed reading of the low byte are 256 apart.\<close>

lemma offsets_differ:
  assumes "bit (w :: cint) 7"
  shows "p + 2 * (w AND 0xFF) \<noteq> p + 2 * signed_take_bit 7 w"
proof -
  have m: "(0xFF :: cint) = mask 8" by (simp add: mask_eq_exp_minus_1)
  have "signed_take_bit 7 w = take_bit 8 w + NOT (mask 8)"
    using assms by (simp add: signed_take_bit_eq_take_bit_add)
  moreover have "NOT (mask 8 :: cint) = - 256" by (simp add: mask_eq_exp_minus_1)
  ultimately have "2 * signed_take_bit 7 w = 2 * (w AND 0xFF) - 512"
    by (simp add: m take_bit_eq_mask)
  then show ?thesis by simp
qed

section \<open>SOB\<close>

text \<open>MOV #n,R0; SOB R0,1; halt for n = 2 and n = 1.\<close>

lemma run_sob_2:
  "(case main [0x15C0, 2, 0x7E01, 0] of
      Some (Inr t) \<Rightarrow> br_exec t = 2 \<and> br_taken t = 1 \<and> reg t 0 = 0 \<and> halt t = 1
    | _ \<Rightarrow> False)"
  by (simp add: pdp11_defs run.simps)

lemma run_sob_1:
  "(case main [0x15C0, 1, 0x7E01, 0] of
      Some (Inr t) \<Rightarrow> br_exec t = 1 \<and> br_taken t = 0 \<and> reg t 0 = 0 \<and> halt t = 1
    | _ \<Rightarrow> False)"
  by (simp add: pdp11_defs run.simps)

section \<open>ASL and ASR\<close>

lemma and_1_bit: "(v AND 1 \<noteq> 0) = bit (v :: cint) 0"
  using bit_iff_and_push_bit_not_eq_0 [of v 0] by simp

lemma ASL_result:
  assumes asl: "drop_bit 6 (instruction s) = 51"
    and op: "get_operand Dst ((decode_fields s)\<lparr>opcode := 51\<rparr>) = Inr s1"
  shows "\<exists>s'. execute s = Inr s' \<and>
     (let r = unat (instruction s AND 7);
          res = uint16_t (push_bit 1 (reg s1 r))
      in reg s' = (reg s1)(r := res) \<and> mem s' = mem s \<and> result s' = res \<and>
         cc_c s' = (if bit (ap_value (dst s1)) 15 then 1 else 0) \<and>
         cc_n s' = (if bit res 15 then 1 else 0) \<and>
         cc_z s' = (if res = 0 then 1 else 0) \<and>
         cc_v s' = cc_c s' XOR cc_n s')"
proof -
  have r: "ap_reg (dst s1) = instruction s AND 7"
    using get_operand_Dst_other [OF op] by simp
  have m: "mem s1 = mem s"
    using get_operand_frame [OF op] by simp
  show ?thesis
    by (simp add: execute_ASL [OF asl] do_ASL_def op r m reg_index_and7 Let_def and_8000_bit)
qed

lemma ASR_result:
  assumes asr: "drop_bit 6 (instruction s) = 50"
    and op: "get_operand Dst ((decode_fields s)\<lparr>opcode := 50\<rparr>) = Inr s1"
  shows "\<exists>s'. execute s = Inr s' \<and>
     (let r = unat (instruction s AND 7);
          res = uint16_t (signed_drop_bit 1 (signed_drop_bit 16 (push_bit 16 (reg s1 r))))
      in reg s' = (reg s1)(r := res) \<and> mem s' = mem s \<and> result s' = res \<and>
         cc_c s' = (if bit (ap_value (dst s1)) 0 then 1 else 0) \<and>
         cc_n s' = (if bit res 15 then 1 else 0) \<and>
         cc_z s' = (if res = 0 then 1 else 0) \<and>
         cc_v s' = cc_c s' XOR cc_n s')"
proof -
  have r: "ap_reg (dst s1) = instruction s AND 7"
    using get_operand_Dst_other [OF op] by simp
  have m: "mem s1 = mem s"
    using get_operand_frame [OF op] by simp
  show ?thesis
    by (simp add: execute_ASR [OF asr] do_ASR_def op r m reg_index_and7 Let_def and_8000_bit
        and_1_bit)
qed

text \<open>AutoDecrement: the register is lowered by 2 (masked) before it is used as the address.\<close>

lemma AUTO_DEC_result:
  assumes op: "get_operand Dst s = Inr s1" and m: "ap_mode (dst s) = 4"
    and r: "reg_index (ap_reg (dst s)) = Some r"
  shows "reg s1 = (reg s)(r := (reg s r - 2) AND 0xFFFF) \<and>
     ap_addr (dst s1) = (reg s r - 2) AND 0xFFFF \<and>
     mem_at s (ap_addr (dst s1)) = Some (ap_value (dst s1))"
  using assms
  by (auto simp: get_defs mem_at_def split: if_splits option.splits)

text \<open>ASL -(R1) (\<open>006341\<close>) with R1 = 4 and the word \<open>0100001\<close> at address 2.\<close>

lemma shift_example:
  "\<exists>s1. get_operand Dst ((decode_fields (init\<lparr>instruction := 0xCE1, reg := (\<lambda>_. 0)(1 := 4),
          mem := (\<lambda>_. 0)(1 := 0x8001)\<rparr>))\<lparr>opcode := 51\<rparr>) = Inr s1 \<and>
      ap_value (dst s1) = 0x8001 \<and> reg s1 1 = 2 \<and> ap_addr (dst s1) = 2"
  by (simp add: pdp11_defs)

text \<open>
  C9. For ASL (\<open>instruction >> 6 = 51\<close>) and ASR (\<open>instruction >> 6 = 50\<close>), once the
  destination operand has resolved to the state \<open>s1\<close>, the instruction completes; the value
  shifted and written back is the destination register as it stands in \<open>s1\<close>, after the
  side effects of the resolution, the C flag is bit 15 (ASL) or bit 0 (ASR) of the resolved
  operand value, and memory is never written. With destination mode 4 (AutoDecrement) the
  register was lowered by 2 before it is read for the shift, while the operand value is the
  memory word at the lowered address. The shifted quantity can differ from the resolved
  operand: ASL -(R1) with R1 = 4 and \<open>0100001\<close> at address 2 resolves the operand
  \<open>0100001\<close>, shifts the register value 2 to 4, sets C from the operand and leaves the
  memory word alone.
\<close>

theorem shifts_use_register:
  "(drop_bit 6 (instruction s) = 51 \<and>
    get_operand Dst ((decode_fields s)\<lparr>opcode := 51\<rparr>) = Inr s1 \<longrightarrow>
      (\<exists>s'. execute s = Inr s' \<and>
         reg s' = (reg s1)(unat (instruction s AND 7) :=
                     uint16_t (push_bit 1 (reg s1 (unat (instruction s AND 7))))) \<and>
         mem s' = mem s \<and>
         cc_c s' = (if bit (ap_value (dst s1)) 15 then 1 else 0)))
   \<and> (drop_bit 6 (instruction s) = 50 \<and>
    get_operand Dst ((decode_fields s)\<lparr>opcode := 50\<rparr>) = Inr s1 \<longrightarrow>
      (\<exists>s'. execute s = Inr s' \<and>
         reg s' = (reg s1)(unat (instruction s AND 7) :=
                     uint16_t (signed_drop_bit 1 (signed_drop_bit 16
                       (push_bit 16 (reg s1 (unat (instruction s AND 7))))))) \<and>
         mem s' = mem s \<and>
         cc_c s' = (if bit (ap_value (dst s1)) 0 then 1 else 0)))
   \<and> (drop_bit 3 (instruction s) AND 7 = 4 \<and>
    get_operand Dst ((decode_fields s)\<lparr>opcode := c\<rparr>) = Inr s1 \<longrightarrow>
      reg s1 = (reg s)(unat (instruction s AND 7) :=
                  (reg s (unat (instruction s AND 7)) - 2) AND 0xFFFF) \<and>
      mem_at s (reg s1 (unat (instruction s AND 7))) = Some (ap_value (dst s1)))
   \<and> (\<exists>t t1 t'. drop_bit 6 (instruction t) = 51 \<and> drop_bit 3 (instruction t) AND 7 = 4 \<and>
         get_operand Dst ((decode_fields t)\<lparr>opcode := 51\<rparr>) = Inr t1 \<and>
         execute t = Inr t' \<and>
         ap_value (dst t1) = 0x8001 \<and> reg t1 (unat (instruction t AND 7)) = 2 \<and>
         reg t' (unat (instruction t AND 7)) = 4 \<and> cc_c t' = 1 \<and> mem t' = mem t)"
proof -
  have c1: "\<exists>s'. execute s = Inr s' \<and>
         reg s' = (reg s1)(unat (instruction s AND 7) :=
                     uint16_t (push_bit 1 (reg s1 (unat (instruction s AND 7))))) \<and>
         mem s' = mem s \<and>
         cc_c s' = (if bit (ap_value (dst s1)) 15 then 1 else 0)"
    if "drop_bit 6 (instruction s) = 51"
      "get_operand Dst ((decode_fields s)\<lparr>opcode := 51\<rparr>) = Inr s1"
    using ASL_result [OF that] unfolding Let_def by blast
  have c2: "\<exists>s'. execute s = Inr s' \<and>
         reg s' = (reg s1)(unat (instruction s AND 7) :=
                     uint16_t (signed_drop_bit 1 (signed_drop_bit 16
                       (push_bit 16 (reg s1 (unat (instruction s AND 7))))))) \<and>
         mem s' = mem s \<and>
         cc_c s' = (if bit (ap_value (dst s1)) 0 then 1 else 0)"
    if "drop_bit 6 (instruction s) = 50"
      "get_operand Dst ((decode_fields s)\<lparr>opcode := 50\<rparr>) = Inr s1"
    using ASR_result [OF that] unfolding Let_def by blast
  have c3: "reg s1 = (reg s)(unat (instruction s AND 7) :=
                  (reg s (unat (instruction s AND 7)) - 2) AND 0xFFFF) \<and>
      mem_at s (reg s1 (unat (instruction s AND 7))) = Some (ap_value (dst s1))"
    if m4: "drop_bit 3 (instruction s) AND 7 = 4"
      and op: "get_operand Dst ((decode_fields s)\<lparr>opcode := c\<rparr>) = Inr s1"
  proof -
    let ?d = "(decode_fields s)\<lparr>opcode := c\<rparr>"
    have m: "ap_mode (dst ?d) = 4" using m4 by simp
    have r: "reg_index (ap_reg (dst ?d)) = Some (unat (instruction s AND 7))"
      by (simp add: reg_index_and7)
    from AUTO_DEC_result [OF op m r] show ?thesis
      by (auto simp: mem_at_def split: option.splits)
  qed
  have c4: "\<exists>t t1 t'. drop_bit 6 (instruction t) = 51 \<and> drop_bit 3 (instruction t) AND 7 = 4 \<and>
         get_operand Dst ((decode_fields t)\<lparr>opcode := 51\<rparr>) = Inr t1 \<and>
         execute t = Inr t' \<and>
         ap_value (dst t1) = 0x8001 \<and> reg t1 (unat (instruction t AND 7)) = 2 \<and>
         reg t' (unat (instruction t AND 7)) = 4 \<and> cc_c t' = 1 \<and> mem t' = mem t"
  proof -
    let ?t = "init\<lparr>instruction := 0xCE1, reg := (\<lambda>_. 0)(1 := 4), mem := (\<lambda>_. 0)(1 := 0x8001)\<rparr>"
    from shift_example obtain t1 where
      op: "get_operand Dst ((decode_fields ?t)\<lparr>opcode := 51\<rparr>) = Inr t1"
      and v: "ap_value (dst t1) = 0x8001" "reg t1 1 = 2"
      by blast
    have asl: "drop_bit 6 (instruction ?t) = 51" by simp
    from ASL_result [OF asl op] v obtain t' where "execute ?t = Inr t'"
      "reg t' 1 = 4" "cc_c t' = 1" "mem t' = mem ?t"
      by (auto simp: Let_def uint16_t_def)
    with op v asl show ?thesis
      by (intro exI [of _ ?t] exI [of _ t1] exI [of _ t']) simp
  qed
  from c1 c2 c3 c4 show ?thesis by blast
qed

text \<open>ASL -(R1) (\<open>006341\<close>) and ASR -(R1) (\<open>006241\<close>), R1 = 4, \<open>0100001\<close> at address 2.\<close>

theorem shifts_use_register_witness:
  "drop_bit 6 (instruction (init\<lparr>instruction := 0xCE1, reg := (\<lambda>_. 0)(1 := 4),
      mem := (\<lambda>_. 0)(1 := 0x8001)\<rparr>)) = 51 \<and>
   drop_bit 3 (instruction (init\<lparr>instruction := 0xCE1, reg := (\<lambda>_. 0)(1 := 4),
      mem := (\<lambda>_. 0)(1 := 0x8001)\<rparr>)) AND 7 = 4 \<and>
   (\<exists>t1 t'. get_operand Dst ((decode_fields (init\<lparr>instruction := 0xCE1, reg := (\<lambda>_. 0)(1 := 4),
        mem := (\<lambda>_. 0)(1 := 0x8001)\<rparr>))\<lparr>opcode := 51\<rparr>) = Inr t1 \<and>
      ap_value (dst t1) = 0x8001 \<and> reg t1 1 = 2 \<and>
      mem_at (init\<lparr>instruction := 0xCE1, reg := (\<lambda>_. 0)(1 := 4),
        mem := (\<lambda>_. 0)(1 := 0x8001)\<rparr>) (reg t1 1) = Some (ap_value (dst t1)) \<and>
      execute (init\<lparr>instruction := 0xCE1, reg := (\<lambda>_. 0)(1 := 4),
        mem := (\<lambda>_. 0)(1 := 0x8001)\<rparr>) = Inr t' \<and>
      reg t' 1 = 4 \<and> cc_c t' = 1 \<and> mem t' = (\<lambda>_. 0)(1 := 0x8001)) \<and>
   drop_bit 6 (instruction (init\<lparr>instruction := 0xCA1, reg := (\<lambda>_. 0)(1 := 4),
      mem := (\<lambda>_. 0)(1 := 0x8001)\<rparr>)) = 50 \<and>
   (\<exists>u1 u'. get_operand Dst ((decode_fields (init\<lparr>instruction := 0xCA1, reg := (\<lambda>_. 0)(1 := 4),
        mem := (\<lambda>_. 0)(1 := 0x8001)\<rparr>))\<lparr>opcode := 50\<rparr>) = Inr u1 \<and>
      ap_value (dst u1) = 0x8001 \<and> reg u1 1 = 2 \<and>
      execute (init\<lparr>instruction := 0xCA1, reg := (\<lambda>_. 0)(1 := 4),
        mem := (\<lambda>_. 0)(1 := 0x8001)\<rparr>) = Inr u' \<and>
      reg u' 1 = 1 \<and> cc_c u' = 1 \<and> mem u' = (\<lambda>_. 0)(1 := 0x8001))"
proof -
  let ?t = "init\<lparr>instruction := 0xCE1, reg := (\<lambda>_. 0)(1 := 4), mem := (\<lambda>_. 0)(1 := 0x8001)\<rparr>"
  let ?u = "init\<lparr>instruction := 0xCA1, reg := (\<lambda>_. 0)(1 := 4), mem := (\<lambda>_. 0)(1 := 0x8001)\<rparr>"
  have ht: "drop_bit 6 (instruction ?t) = 51" by simp
  have mt: "drop_bit 3 (instruction ?t) AND 7 = 4" by simp
  have hu: "drop_bit 6 (instruction ?u) = 50" by simp
  have "\<exists>t1. get_operand Dst ((decode_fields ?t)\<lparr>opcode := 51\<rparr>) = Inr t1 \<and>
      ap_value (dst t1) = 0x8001 \<and> reg t1 1 = 2"
    by (simp add: pdp11_defs)
  then obtain t1 where opt: "get_operand Dst ((decode_fields ?t)\<lparr>opcode := 51\<rparr>) = Inr t1"
    and vt: "ap_value (dst t1) = 0x8001" "reg t1 1 = 2" by blast
  have "\<exists>u1. get_operand Dst ((decode_fields ?u)\<lparr>opcode := 50\<rparr>) = Inr u1 \<and>
      ap_value (dst u1) = 0x8001 \<and> reg u1 1 = 2"
    by (simp add: pdp11_defs)
  then obtain u1 where opu: "get_operand Dst ((decode_fields ?u)\<lparr>opcode := 50\<rparr>) = Inr u1"
    and vu: "ap_value (dst u1) = 0x8001" "reg u1 1 = 2" by blast
  note thm_t = shifts_use_register [where s = ?t and ?s1.0 = t1 and c = 51]
  note thm_u = shifts_use_register [where s = ?u and ?s1.0 = u1 and c = 50]
  from thm_t [THEN conjunct1, rule_format, OF conjI [OF ht opt]] vt
  obtain t' where et: "execute ?t = Inr t'" "reg t' 1 = 4" "cc_c t' = 1"
    "mem t' = (\<lambda>_. 0)(1 := 0x8001)"
    by (auto simp: uint16_t_def init_def)
  from thm_t [THEN conjunct2, THEN conjunct2, THEN conjunct1, rule_format, OF conjI [OF mt opt]]
  have at: "mem_at ?t (reg t1 1) = Some (ap_value (dst t1))" by auto
  from thm_u [THEN conjunct2, THEN conjunct1, rule_format, OF conjI [OF hu opu]] vu
  obtain u' where eu: "execute ?u = Inr u'" "reg u' 1 = 1" "cc_c u' = 1"
    "mem u' = (\<lambda>_. 0)(1 := 0x8001)"
    by (auto simp: uint16_t_def init_def)
  from ht mt hu opt vt at et opu vu eu show ?thesis by blast
qed

section \<open>The assertions of AutoIncrement\<close>

lemma mem_index_bound: "mem_index a = Some i \<Longrightarrow> i < MEM_SIZE"
  by (auto simp: mem_index_def Let_def split: if_splits)

lemma mem_index_in_range:
  assumes "0 \<le> sint a" "sint a < 65536"
  shows "mem_index a = Some (nat (sint a div 2))"
proof -
  have "sint (signed_drop_bit 1 a) = sint a div 2"
    by (simp add: sint_signed_drop_bit_eq drop_bit_eq_div)
  with assms show ?thesis
    by (auto simp: mem_index_def MEM_SIZE_def Let_def)
qed

lemma get_operand_AUTO_INC:
  assumes "ap_mode (phrase k s) = 2" "reg_index (ap_reg (phrase k s)) = Some r"
  shows "get_operand k s = get_AUTO_INC k r s"
  using assms by (simp add: get_operand_def Let_def)

text \<open>
  C10. In mode 2 (AutoIncrement), with the register index \<open>r\<close> inside the register file,
  \<open>get_operand\<close> aborts on its first assertion when the register value (the effective
  address) is not below \<open>0200000\<close>, and on its second when the memory word fetched is
  not below \<open>0200000\<close>. When every register and every memory word is below 2^16 (in the
  signed comparison of the source) the call never ends in the failed assertion; when the
  registers are moreover not negative it returns, with the address and the value it
  resolved both below \<open>0200000\<close>.
\<close>

theorem AUTO_INC_asserts:
  assumes m: "ap_mode (phrase k s) = 2"
    and r: "reg_index (ap_reg (phrase k s)) = Some r"
  shows "(\<not> reg s r <s 0x10000 \<longrightarrow> get_operand k s = Inl Assert_failure)
    \<and> (reg s r <s 0x10000 \<and> mem_index (reg s r) = Some i \<and> \<not> mem s i <s 0x10000 \<longrightarrow>
          get_operand k s = Inl Assert_failure)
    \<and> ((\<forall>j<8. reg s j <s 0x10000) \<and> (\<forall>j<MEM_SIZE. mem s j <s 0x10000) \<longrightarrow>
          get_operand k s \<noteq> Inl Assert_failure)
    \<and> ((\<forall>j<8. 0 \<le>s reg s j \<and> reg s j <s 0x10000) \<and> (\<forall>j<MEM_SIZE. mem s j <s 0x10000) \<longrightarrow>
          (\<exists>s'. get_operand k s = Inr s' \<and> ap_addr (phrase k s') = reg s r \<and>
                ap_addr (phrase k s') <s 0x10000 \<and> ap_value (phrase k s') <s 0x10000 \<and>
                mem_at s (reg s r) = Some (ap_value (phrase k s'))))"
proof -
  have r8: "r < 8" using r by (auto simp: reg_index_def split: if_splits)
  have c1: "get_operand k s = Inl Assert_failure" if "\<not> reg s r <s 0x10000"
    using that by (simp add: get_operand_AUTO_INC [OF m r] get_AUTO_INC_def Let_def)
  have c2: "get_operand k s = Inl Assert_failure"
    if "reg s r <s 0x10000" "mem_index (reg s r) = Some i" "\<not> mem s i <s 0x10000"
    using that by (simp add: get_operand_AUTO_INC [OF m r] get_AUTO_INC_def Let_def mem_at_def)
  have c3: "get_operand k s \<noteq> Inl Assert_failure"
    if a: "\<forall>j<8. reg s j <s 0x10000" and b: "\<forall>j<MEM_SIZE. mem s j <s 0x10000"
  proof -
    have ra: "reg s r <s 0x10000" using a r8 by simp
    show ?thesis
    proof (cases "mem_index (reg s r)")
      case None
      then show ?thesis
        using ra by (simp add: get_operand_AUTO_INC [OF m r] get_AUTO_INC_def Let_def mem_at_def)
    next
      case (Some i)
      then have "mem s i <s 0x10000" using b mem_index_bound by blast
      with Some ra show ?thesis
        by (simp add: get_operand_AUTO_INC [OF m r] get_AUTO_INC_def Let_def mem_at_def)
    qed
  qed
  have c4: "\<exists>s'. get_operand k s = Inr s' \<and> ap_addr (phrase k s') = reg s r \<and>
                ap_addr (phrase k s') <s 0x10000 \<and> ap_value (phrase k s') <s 0x10000 \<and>
                mem_at s (reg s r) = Some (ap_value (phrase k s'))"
    if a: "\<forall>j<8. 0 \<le>s reg s j \<and> reg s j <s 0x10000" and b: "\<forall>j<MEM_SIZE. mem s j <s 0x10000"
  proof -
    have ra: "0 \<le>s reg s r" "reg s r <s 0x10000" using a r8 by simp_all
    then have "0 \<le> sint (reg s r)" "sint (reg s r) < 65536"
      by (simp_all add: word_sle_eq word_sless_alt)
    from mem_index_in_range [OF this] obtain i where i: "mem_index (reg s r) = Some i" by blast
    then have v: "mem s i <s 0x10000" using b mem_index_bound by blast
    have e: "get_operand k s = get_AUTO_INC k r s"
      by (rule get_operand_AUTO_INC [OF m r])
    show ?thesis
      unfolding e using ra i v
      by (cases k) (simp_all add: get_AUTO_INC_def Let_def mem_at_def phrase_def set_phrase_def)
  qed
  from c1 c2 c3 c4 show ?thesis by blast
qed

text \<open>
  The destination phrase in mode 2 on R1: R1 = \<open>0200000\<close> fails the first assertion;
  R1 = 4 with \<open>0200000\<close> at address 4 fails the second; R1 = 4 with 7 at address 4
  resolves to address 4 and value 7.
\<close>

theorem AUTO_INC_asserts_witness:
  "ap_mode (phrase Dst (init\<lparr>dst := \<lparr>ap_mode = 2, ap_reg = 1, ap_addr = 0, ap_value = 0\<rparr>,
      reg := (\<lambda>_. 0)(1 := 0x10000)\<rparr>)) = 2 \<and>
   reg_index (ap_reg (phrase Dst (init\<lparr>dst := \<lparr>ap_mode = 2, ap_reg = 1, ap_addr = 0, ap_value = 0\<rparr>,
      reg := (\<lambda>_. 0)(1 := 0x10000)\<rparr>))) = Some 1 \<and>
   get_operand Dst (init\<lparr>dst := \<lparr>ap_mode = 2, ap_reg = 1, ap_addr = 0, ap_value = 0\<rparr>,
      reg := (\<lambda>_. 0)(1 := 0x10000)\<rparr>) = Inl Assert_failure \<and>
   get_operand Dst (init\<lparr>dst := \<lparr>ap_mode = 2, ap_reg = 1, ap_addr = 0, ap_value = 0\<rparr>,
      reg := (\<lambda>_. 0)(1 := 4), mem := (\<lambda>_. 0)(2 := 0x10000)\<rparr>) = Inl Assert_failure \<and>
   get_operand Dst (init\<lparr>dst := \<lparr>ap_mode = 2, ap_reg = 1, ap_addr = 0, ap_value = 0\<rparr>,
      reg := (\<lambda>_. 0)(1 := 4), mem := (\<lambda>_. 0)(2 := 7)\<rparr>) \<noteq> Inl Assert_failure \<and>
   (\<exists>s'. get_operand Dst (init\<lparr>dst := \<lparr>ap_mode = 2, ap_reg = 1, ap_addr = 0, ap_value = 0\<rparr>,
      reg := (\<lambda>_. 0)(1 := 4), mem := (\<lambda>_. 0)(2 := 7)\<rparr>) = Inr s' \<and>
      ap_addr (dst s') = 4 \<and> ap_value (dst s') = 7)"
proof -
  let ?p = "\<lparr>ap_mode = 2, ap_reg = 1, ap_addr = 0, ap_value = 0\<rparr>"
  let ?a = "init\<lparr>dst := ?p, reg := (\<lambda>_. 0)(1 := 0x10000)\<rparr>"
  let ?b = "init\<lparr>dst := ?p, reg := (\<lambda>_. 0)(1 := 4), mem := (\<lambda>_. 0)(2 := 0x10000)\<rparr>"
  let ?c = "init\<lparr>dst := ?p, reg := (\<lambda>_. 0)(1 := 4), mem := (\<lambda>_. 0)(2 := 7)\<rparr>"
  have ma: "ap_mode (phrase Dst ?a) = 2" and ra: "reg_index (ap_reg (phrase Dst ?a)) = Some 1"
    by (simp_all add: phrase_def reg_index_def)
  have mb: "ap_mode (phrase Dst ?b) = 2" and rb: "reg_index (ap_reg (phrase Dst ?b)) = Some 1"
    by (simp_all add: phrase_def reg_index_def)
  have mc: "ap_mode (phrase Dst ?c) = 2" and rc: "reg_index (ap_reg (phrase Dst ?c)) = Some 1"
    by (simp_all add: phrase_def reg_index_def)
  have ha: "\<not> reg ?a 1 <s 0x10000" by (simp add: word_sless_alt)
  have hb: "reg ?b 1 <s 0x10000 \<and> mem_index (reg ?b 1) = Some 2 \<and> \<not> mem ?b 2 <s 0x10000"
    by (simp add: word_sless_alt mem_index_def MEM_SIZE_def)
  have hc: "(\<forall>j<8. 0 \<le>s reg ?c j \<and> reg ?c j <s 0x10000) \<and> (\<forall>j<MEM_SIZE. mem ?c j <s 0x10000)"
    by (simp add: word_sless_alt word_sle_eq init_def)
  then have hc': "(\<forall>j<8. reg ?c j <s 0x10000) \<and> (\<forall>j<MEM_SIZE. mem ?c j <s 0x10000)"
    by blast
  from AUTO_INC_asserts [OF ma ra, THEN conjunct1, rule_format, OF ha]
  have ca: "get_operand Dst ?a = Inl Assert_failure" .
  from AUTO_INC_asserts [OF mb rb, where i = 2, THEN conjunct2, THEN conjunct1, rule_format, OF hb]
  have cb: "get_operand Dst ?b = Inl Assert_failure" .
  from AUTO_INC_asserts [OF mc rc, THEN conjunct2, THEN conjunct2, THEN conjunct1, rule_format, OF hc']
  have cc: "get_operand Dst ?c \<noteq> Inl Assert_failure" .
  from AUTO_INC_asserts [OF mc rc, THEN conjunct2, THEN conjunct2, THEN conjunct2, rule_format, OF hc]
  have cd: "\<exists>s'. get_operand Dst ?c = Inr s' \<and> ap_addr (dst s') = 4 \<and> ap_value (dst s') = 7"
    by (auto simp: phrase_def mem_at_def mem_index_def MEM_SIZE_def init_def)
  from ma ra ca cb cc cd show ?thesis by blast
qed

section \<open>The BAD INSTRUCTION exit and the exit codes\<close>

text \<open>Below \<open>0177776\<close> the advance of the PC does not wrap, and PC - 2 is the address fetched.\<close>

lemma advance_no_wrap:
  assumes "(p :: cint) < 0xFFFE"
  shows "((p + 2) AND 0xFFFF) - 2 = p"
proof -
  have "p + 2 < 2 ^ 16" using assms by unat_arith
  then have "(p + 2) AND mask 16 = p + 2" by (rule less_mask_eq)
  then show ?thesis by (simp add: mask_eq_exp_minus_1)
qed

text \<open>
  A nonzero word that none of the three switches has a case for ends the run with
  \<open>exit(-1)\<close>; the value printed is the advanced, masked PC minus 2, which is the address
  of the word when that address is below \<open>0177776\<close>.
\<close>

lemma bad_instruction_report:
  assumes fetch: "mem_at s (reg s 7) = Some w" and nz: "w \<noteq> 0"
    and l1: "drop_bit 12 w \<notin> {1, 2, 6, 14}"
    and l2: "drop_bit 6 w \<notin> {4, 12, 51, 50}"
    and l3: "drop_bit 9 w \<notin> {63, 1}"
  shows "step s = Inl (Bad_instruction (((reg s 7 + 2) AND 0xFFFF) - 2))"
    and "exit_code (step s) = Some (- 1)"
    and "reg s 7 < 0xFFFE \<Longrightarrow> step s = Inl (Bad_instruction (reg s 7))"
proof -
  show 1: "step s = Inl (Bad_instruction (((reg s 7 + 2) AND 0xFFFF) - 2))"
    using assms by (simp add: step_def execute_def Let_def)
  then show "exit_code (step s) = Some (- 1)" by (simp add: exit_code_def)
  show "step s = Inl (Bad_instruction (reg s 7))" if "reg s 7 < 0xFFFE"
    using 1 advance_no_wrap [OF that] by simp
qed

text \<open>The halt word leaves the loop, and \<open>main\<close> returns 0.\<close>

lemma halt_exit_code:
  assumes "mem_at s (reg s 7) = Some 0" "halt s = 0"
  shows "\<exists>s'. run s = Some (Inr s') \<and> halt s' = 1 \<and> exit_code (Inr s') = Some 0"
  using assms by (simp add: run.simps [of s] step_def run.simps exit_code_def)

text \<open>
  C6 at the top of memory. The program MOV #0177776,R1; MOV #0170000,(R1)+; MOV #5,R0;
  SOB R0,010 stores the word \<open>0170000\<close>, which no switch has a case for, at address
  \<open>0177776\<close> and branches to it (14 - 16 masked to 16 bits). The fetch advances the PC to
  0, and the value reported is -2, not the address \<open>0177776\<close> of the illegal word: the
  subtraction \<open>reg[7] - 2\<close> is not masked as the other PC arithmetic is.
\<close>

theorem bad_instruction_at_0177776:
  "main [0x15C1, 0xFFFE, 0x15D1, 0xF000, 0x15C0, 5, 0x7E08] = Some (Inl (Bad_instruction (- 2))) \<and>
   mem_at (init\<lparr>reg := (\<lambda>_. 0)(7 := 0xFFFE), mem := (\<lambda>_. 0)(32767 := 0xF000)\<rparr>) 0xFFFE
     = Some 0xF000 \<and>
   step (init\<lparr>reg := (\<lambda>_. 0)(7 := 0xFFFE), mem := (\<lambda>_. 0)(32767 := 0xF000)\<rparr>)
     = Inl (Bad_instruction (- 2))"
  by (simp add: pdp11_defs run.simps)

section \<open>Register writes that are not masked\<close>

text \<open>
  C1 fails on three of the writes it names. MOV #0177776,R0; MOV @(R0)+,R1; halt runs to
  the halt with R0 = \<open>0200000\<close>: AutoIncrementDeferred adds 2 without the mask that
  AutoIncrement applies. SOB R0,1 as the first instruction (R0 = 0) leaves R0 = -1: the
  decrement is not masked. BNE -2 as the first instruction (Z clear) leaves PC = -2: BNE
  and BEQ store the sum without the mask that BR applies.
\<close>

theorem unmasked_register_writes:
  "(\<exists>s. main [0x15C0, 0xFFFE, 0x1601, 0] = Some (Inr s) \<and> reg s 0 = 0x10000) \<and>
   (\<exists>s s'. load_program [0x7E01] init = Inr s \<and> step s = Inr s' \<and> sint (reg s' 0) = - 1) \<and>
   (\<exists>s s'. load_program [0x2FE] init = Inr s \<and> step s = Inr s' \<and> sint (reg s' 7) = - 2)"
  by (simp add: pdp11_defs run.simps)

section \<open>ADD followed by SUB\<close>

text \<open>Masks and single bits of a word, and the same arithmetic on integers.\<close>

lemma and_FFFF: "(x :: cint) AND 0xFFFF = take_bit 16 x"
proof -
  have "(0xFFFF :: cint) = mask 16" by (simp add: mask_eq_exp_minus_1)
  then show ?thesis by (simp add: take_bit_eq_mask)
qed

lemma and_exp_if: "(x :: cint) AND 2 ^ n = (if bit x n then 2 ^ n else 0)"
  by (rule bit_eqI) (auto simp: bit_simps)

lemma and_bit_const:
  "(x :: cint) AND 0x8000 = (if bit x 15 then 0x8000 else 0)"
  "(x :: cint) AND 0x10000 = (if bit x 16 then 0x10000 else 0)"
  using and_exp_if [of x 15] and_exp_if [of x 16] by simp_all

lemma carry_bit: "signed_drop_bit 16 ((r :: cint) AND 0x10000) = of_bool (bit r 16)"
  by (simp add: and_bit_const)

lemma sign_bits_eq: "((x :: cint) AND 0x8000 = y AND 0x8000) = (bit x 15 = bit y 15)"
  by (simp add: and_bit_const)

lemma uint_sub_masked: "uint (((dv :: cint) - sv) AND 0xFFFF) = (uint dv - uint sv) mod 65536"
proof -
  have "uint (take_bit 16 (dv - sv)) = take_bit 16 (take_bit 32 (uint dv - uint sv))"
    by (simp add: unsigned_take_bit_eq uint_word_arith_bintrs)
  also have "\<dots> = take_bit 16 (uint dv - uint sv)" by simp
  finally show ?thesis by (simp add: and_FFFF take_bit_eq_mod)
qed

lemma bit16_sub: "bit ((dv :: cint) - sv) 16 = bit (uint dv - uint sv) 16"
proof -
  have "bit (dv - sv) 16 = bit (uint (dv - sv)) 16" by (simp add: bit_uint_iff)
  also have "\<dots> = bit (take_bit 32 (uint dv - uint sv)) 16"
    by (simp add: uint_word_arith_bintrs)
  also have "\<dots> = bit (uint dv - uint sv) 16" by (simp add: bit_take_bit_iff)
  finally show ?thesis .
qed

text \<open>The flags the SUB case computes from the two operand values.\<close>

lemma SUB_flags_ref:
  fixes sv dv :: cint
  defines "r \<equiv> (dv - sv) AND 0xFFFF"
  shows "((if r AND 0x8000 \<noteq> 0 then 1 else 0),
          (if r = 0 then 1 else 0),
          (if sv AND 0x8000 \<noteq> dv AND 0x8000 \<and> sv AND 0x8000 = r AND 0x8000 then 1 else 0),
          signed_drop_bit 16 ((dv - sv) AND 0x10000))
         = ref_SUB_flags (uint sv) (uint dv)"
proof -
  have u: "uint r = (uint dv - uint sv) mod 65536"
    unfolding r_def by (rule uint_sub_masked)
  have n: "bit r 15 = bit ((uint dv - uint sv) mod 65536) 15"
    using u bit_uint_iff [of r 15] by simp
  have z: "(r = 0) = ((uint dv - uint sv) mod 65536 = 0)"
    using u uint_0_iff [of r] by simp
  show ?thesis
    by (simp add: ref_SUB_flags_def Let_def carry_bit sign_bits_eq and_8000_bit n z bit16_sub
        bit_uint_iff)
qed

lemma uint_add_masked: "uint (((a :: cint) + b) AND 0xFFFF) = (uint a + uint b) mod 65536"
proof -
  have "uint (take_bit 16 (a + b)) = take_bit 16 (take_bit 32 (uint a + uint b))"
    by (simp add: unsigned_take_bit_eq uint_word_arith_bintrs)
  also have "\<dots> = take_bit 16 (uint a + uint b)" by simp
  finally show ?thesis by (simp add: and_FFFF take_bit_eq_mod)
qed

lemma add_sub_16:
  assumes "(a :: cint) < 0x10000"
  shows "(((a + b) AND 0xFFFF) - b) AND 0xFFFF = a"
proof -
  have "uint a < 65536" using assms by (simp add: word_less_alt)
  then have "uint a mod 65536 = uint a" by simp
  moreover have "uint ((((a + b) AND 0xFFFF) - b) AND 0xFFFF)
      = ((uint a + uint b) mod 65536 - uint b) mod 65536"
    by (simp only: uint_sub_masked uint_add_masked)
  moreover have "((uint a + uint b) mod 65536 - uint b) mod 65536 = uint a mod 65536"
    by (simp add: mod_diff_left_eq)
  ultimately have "uint ((((a + b) AND 0xFFFF) - b) AND 0xFFFF) = uint a" by simp
  then show ?thesis by (simp only: word_uint_eq_iff)
qed

text \<open>ADD and SUB with both operands in Register mode.\<close>

lemma ADD_REG_result:
  assumes "drop_bit 12 (instruction s) = 6" "drop_bit 9 (instruction s) AND 7 = 0"
    "drop_bit 3 (instruction s) AND 7 = 0"
  shows "\<exists>s'. execute s = Inr s' \<and>
     reg s' = (reg s)(unat (instruction s AND 7) :=
        (reg s (unat (drop_bit 6 (instruction s) AND 7)) + reg s (unat (instruction s AND 7)))
          AND 0xFFFF) \<and>
     mem s' = mem s \<and> halt s' = halt s"
  using assms
  by (simp add: execute_def Let_def do_ADD_def get_operands_def get_defs decode_fields_def
      reg_index_and7 write_dst_reg_def)

lemma SUB_REG_result:
  assumes "drop_bit 12 (instruction s) = 14" "drop_bit 9 (instruction s) AND 7 = 0"
    "drop_bit 3 (instruction s) AND 7 = 0"
  shows "\<exists>s'. execute s = Inr s' \<and>
     reg s' = (reg s)(unat (instruction s AND 7) :=
        (reg s (unat (instruction s AND 7)) - reg s (unat (drop_bit 6 (instruction s) AND 7)))
          AND 0xFFFF) \<and>
     mem s' = mem s \<and>
     (cc_n s', cc_z s', cc_v s', cc_c s') =
        ref_SUB_flags (uint (reg s (unat (drop_bit 6 (instruction s) AND 7))))
          (uint (reg s (unat (instruction s AND 7))))"
  using assms
    SUB_flags_ref [of "reg s (unat (instruction s AND 7))"
      "reg s (unat (drop_bit 6 (instruction s) AND 7))"]
  by (simp add: execute_def Let_def do_SUB_def get_operands_def get_defs decode_fields_def
      reg_index_and7 write_dst_reg_def)

section \<open>The offsets the second switch lets through\<close>

text \<open>
  The second switch compares \<open>instruction >> 6\<close>, which includes bits 6 and 7 of the
  offset byte, with 4 (BR) and 12 (BEQ). So the BR and BEQ cases run only for offset bytes
  0..63; a word \<open>0014xx\<close>..\<open>0017xx\<close> with bit 7 set falls through to the third switch
  and runs the BNE case.
\<close>

lemma layer2_offset_bits:
  assumes "drop_bit 6 (w :: cint) = 12 \<or> drop_bit 6 w = 4"
  shows "\<not> bit w 6 \<and> \<not> bit w 7"
proof -
  have "bit (drop_bit 6 w) 0 = bit w 6" "bit (drop_bit 6 w) 1 = bit w 7"
    by (simp_all add: bit_drop_bit_eq)
  with assms show ?thesis by auto
qed

lemma BEQ_word_with_bit_7_runs_BNE:
  assumes "drop_bit 9 (instruction s) = 1" "bit (instruction s) 7"
  shows "execute s = do_BNE ((decode_fields s)\<lparr>opcode := 1\<rparr>)"
proof -
  have "drop_bit 6 (instruction s) \<noteq> 12"
    using assms(2) layer2_offset_bits [of "instruction s"] by blast
  with assms(1) show ?thesis by (rule execute_BNE)
qed

section \<open>Passes through the loop\<close>

text \<open>A pass that fetches a nonzero word executes it in the state the fetch leaves.\<close>

lemma step_nonzero:
  assumes "mem_at s (reg s 7) = Some w" "w \<noteq> 0"
  shows "step s = execute (s\<lparr>instruction := w, instr_exec := instr_exec s + 1,
     instr_fetch := instr_fetch s + 1, reg := (reg s)(7 := (reg s 7 + 2) AND 0xFFFF)\<rparr>)"
  using assms by (simp add: step_def Let_def)

text \<open>A fetch depends on the memory only, and succeeds at 16-bit addresses only.\<close>

lemma mem_at_mem: "mem s' = mem s \<Longrightarrow> mem_at s' a = mem_at s a"
  by (simp add: mem_at_def split: option.splits)

lemma fetch_address_16bit:
  assumes "mem_at s p = Some w"
  shows "p < 0x10000"
proof -
  have d: "sint (signed_drop_bit (Suc 0) p) = sint p div 2"
    by (simp add: sint_signed_drop_bit_eq drop_bit_eq_div)
  from assms obtain i where "mem_index p = Some i"
    by (auto simp: mem_at_def split: option.splits)
  then have "0 \<le> sint (signed_drop_bit (Suc 0) p)" "sint (signed_drop_bit (Suc 0) p) < 32768"
    by (auto simp: mem_index_def Let_def MEM_SIZE_def split: if_splits)
  then have "0 \<le> sint p div 2" "sint p div 2 < 32768" by (simp_all only: d)
  then have s: "0 \<le> sint p" "sint p < 65536" by simp_all
  have "uint p = take_bit 32 (sint p)" using uint_sint [of p] by simp
  also have "\<dots> = sint p" using s by (simp add: take_bit_int_eq_self)
  finally have "uint p < 65536" using s by simp
  then show ?thesis by (simp add: word_less_alt)
qed

text \<open>Counting the passes.\<close>

lemma steps_numeral:
  "steps (numeral k) s =
     (if halt s \<noteq> 0 then Inr s
      else (case step s of Inl e \<Rightarrow> Inl e | Inr s' \<Rightarrow> steps (pred_numeral k) s'))"
  by (simp add: numeral_eq_Suc)

lemma steps_1:
  "steps 1 s = (if halt s \<noteq> 0 then Inr s else step s)"
  by (simp split: sum.splits)

lemma steps_2:
  assumes "halt s = 0" "step s = Inr s1" "halt s1 = 0" "step s1 = Inr s2"
  shows "steps 2 s = Inr s2"
  using assms by (simp add: steps_numeral)

section \<open>BEQ, BR and BNE as the decoder runs them\<close>

text \<open>With bits 6 and 7 clear the signed and the unsigned reading of the low byte agree.\<close>

lemma layer2_offset_unsigned:
  assumes "drop_bit 6 (w :: cint) = 12 \<or> drop_bit 6 w = 4"
  shows "signed_take_bit 7 w = w AND 0xFF"
proof -
  have m: "(0xFF :: cint) = mask 8" by (simp add: mask_eq_exp_minus_1)
  have "\<not> bit w 7" using layer2_offset_bits [OF assms] by simp
  then have "signed_take_bit 7 w = take_bit 8 w"
    by (simp add: signed_take_bit_eq_take_bit_add)
  then show ?thesis by (simp add: m take_bit_eq_mask)
qed

text \<open>
  C3, amended. The BEQ case (\<open>instruction >> 6 = 12\<close>) adds twice the low 8 bits of the
  instruction, taken unsigned, to the PC when Z is set and leaves the PC alone otherwise.
  The BR case (\<open>instruction >> 6 = 4\<close>) adds twice the sign-extended low 8 bits and masks
  the sum to 16 bits, whatever the flags are; the BNE case adds twice the sign-extended low
  8 bits when Z is clear only. The BEQ and BR cases run only for words whose bits 6 and 7
  are clear, where the unsigned and the sign-extended offset are the same value 0..63. A
  word with \<open>instruction >> 9 = 1\<close> whose low 8 bits have bit 7 set is not run as BEQ but
  as BNE: it counts as a branch executed, and is taken, to PC plus twice the sign-extended
  offset, exactly when Z is clear.
\<close>

theorem BEQ_unsigned_offset:
  "(drop_bit 6 (instruction s) = 12 \<longrightarrow>
      (\<exists>s'. execute s = Inr s' \<and>
            reg s' = (if cc_z s \<noteq> 0 then (reg s)(7 := reg s 7 + 2 * (instruction s AND 0xFF))
                      else reg s)) \<and>
      \<not> bit (instruction s) 6 \<and> \<not> bit (instruction s) 7 \<and>
      signed_take_bit 7 (instruction s) = instruction s AND 0xFF)
   \<and> (drop_bit 6 (instruction s) = 4 \<longrightarrow>
      (\<exists>s'. execute s = Inr s' \<and>
            reg s' = (reg s)(7 := (reg s 7 + 2 * signed_take_bit 7 (instruction s)) AND 0xFFFF)) \<and>
      \<not> bit (instruction s) 6 \<and> \<not> bit (instruction s) 7 \<and>
      signed_take_bit 7 (instruction s) = instruction s AND 0xFF)
   \<and> (drop_bit 9 (instruction s) = 1 \<and> drop_bit 6 (instruction s) \<noteq> 12 \<longrightarrow>
      (\<exists>s'. execute s = Inr s' \<and>
            reg s' = (if cc_z s = 0 then (reg s)(7 := reg s 7 + 2 * signed_take_bit 7 (instruction s))
                      else reg s)))
   \<and> (drop_bit 9 (instruction s) = 1 \<and> bit (instruction s) 7 \<longrightarrow>
      drop_bit 6 (instruction s) \<noteq> 12 \<and>
      (\<exists>s'. execute s = Inr s' \<and> br_exec s' = br_exec s + 1 \<and>
            br_taken s' = br_taken s + (if cc_z s = 0 then 1 else 0) \<and>
            reg s' = (if cc_z s = 0 then (reg s)(7 := reg s 7 + 2 * signed_take_bit 7 (instruction s))
                      else reg s)))"
proof -
  have c1: "(\<exists>s'. execute s = Inr s' \<and>
            reg s' = (if cc_z s \<noteq> 0 then (reg s)(7 := reg s 7 + 2 * (instruction s AND 0xFF))
                      else reg s)) \<and>
      \<not> bit (instruction s) 6 \<and> \<not> bit (instruction s) 7 \<and>
      signed_take_bit 7 (instruction s) = instruction s AND 0xFF"
    if h: "drop_bit 6 (instruction s) = 12"
    using BEQ_result [OF h] layer2_offset_bits [of "instruction s"]
      layer2_offset_unsigned [of "instruction s"] h by blast
  have c2: "(\<exists>s'. execute s = Inr s' \<and>
            reg s' = (reg s)(7 := (reg s 7 + 2 * signed_take_bit 7 (instruction s)) AND 0xFFFF)) \<and>
      \<not> bit (instruction s) 6 \<and> \<not> bit (instruction s) 7 \<and>
      signed_take_bit 7 (instruction s) = instruction s AND 0xFF"
    if h: "drop_bit 6 (instruction s) = 4"
    using BR_result [OF h] layer2_offset_bits [of "instruction s"]
      layer2_offset_unsigned [of "instruction s"] h by blast
  have c3: "\<exists>s'. execute s = Inr s' \<and> br_exec s' = br_exec s + 1 \<and>
            br_taken s' = br_taken s + (if cc_z s = 0 then 1 else 0) \<and>
            reg s' = (if cc_z s = 0 then (reg s)(7 := reg s 7 + 2 * signed_take_bit 7 (instruction s))
                      else reg s)"
    if h: "drop_bit 9 (instruction s) = 1" "drop_bit 6 (instruction s) \<noteq> 12"
    using BNE_result [OF h] by blast
  have c4: "drop_bit 6 (instruction s) \<noteq> 12"
    if h: "bit (instruction s) 7"
    using h layer2_offset_bits [of "instruction s"] by blast
  from c1 c2 c3 c4 show ?thesis by blast
qed

text \<open>
  BEQ +3 (\<open>001403\<close>, Z set), BR +3 (\<open>000403\<close>) and BNE -2 (\<open>001376\<close>, Z clear) from
  PC = 10, and the word \<open>001600\<close> (low byte \<open>0200\<close>) with Z clear from PC = 1000: it
  branches back 256 bytes.
\<close>

theorem BEQ_unsigned_offset_witness:
  "drop_bit 6 (instruction (init\<lparr>instruction := 0x303, cc_z := 1, reg := (\<lambda>_. 0)(7 := 10)\<rparr>)) = 12 \<and>
   (\<exists>s'. execute (init\<lparr>instruction := 0x303, cc_z := 1, reg := (\<lambda>_. 0)(7 := 10)\<rparr>) = Inr s' \<and>
      reg s' 7 = 16) \<and>
   drop_bit 6 (instruction (init\<lparr>instruction := 0x103, reg := (\<lambda>_. 0)(7 := 10)\<rparr>)) = 4 \<and>
   (\<exists>s'. execute (init\<lparr>instruction := 0x103, reg := (\<lambda>_. 0)(7 := 10)\<rparr>) = Inr s' \<and> reg s' 7 = 16) \<and>
   drop_bit 9 (instruction (init\<lparr>instruction := 0x2FE, reg := (\<lambda>_. 0)(7 := 10)\<rparr>)) = 1 \<and>
   drop_bit 6 (instruction (init\<lparr>instruction := 0x2FE, reg := (\<lambda>_. 0)(7 := 10)\<rparr>)) \<noteq> 12 \<and>
   (\<exists>s'. execute (init\<lparr>instruction := 0x2FE, reg := (\<lambda>_. 0)(7 := 10)\<rparr>) = Inr s' \<and> reg s' 7 = 6) \<and>
   drop_bit 9 (instruction (init\<lparr>instruction := 0x380, reg := (\<lambda>_. 0)(7 := 1000)\<rparr>)) = 1 \<and>
   bit (instruction (init\<lparr>instruction := 0x380, reg := (\<lambda>_. 0)(7 := 1000)\<rparr>)) 7 \<and>
   (\<exists>s'. execute (init\<lparr>instruction := 0x380, reg := (\<lambda>_. 0)(7 := 1000)\<rparr>) = Inr s' \<and>
      br_exec s' = 1 \<and> br_taken s' = 1 \<and> reg s' 7 = 744)"
proof -
  let ?a = "init\<lparr>instruction := 0x303, cc_z := 1, reg := (\<lambda>_. 0)(7 := 10)\<rparr>"
  let ?b = "init\<lparr>instruction := 0x103, reg := (\<lambda>_. 0)(7 := 10)\<rparr>"
  let ?c = "init\<lparr>instruction := 0x2FE, reg := (\<lambda>_. 0)(7 := 10)\<rparr>"
  let ?d = "init\<lparr>instruction := 0x380, reg := (\<lambda>_. 0)(7 := 1000)\<rparr>"
  have h1: "drop_bit 6 (instruction ?a) = 12" by simp
  have h2: "drop_bit 6 (instruction ?b) = 4" by simp
  have h3: "drop_bit 9 (instruction ?c) = 1 \<and> drop_bit 6 (instruction ?c) \<noteq> 12" by simp
  have h4: "drop_bit 9 (instruction ?d) = 1 \<and> bit (instruction ?d) 7" by simp
  from BEQ_unsigned_offset [of ?a, THEN conjunct1, rule_format, OF h1]
  have c1: "\<exists>s'. execute ?a = Inr s' \<and> reg s' 7 = 16"
    by (auto simp add: init_def)
  from BEQ_unsigned_offset [of ?b, THEN conjunct2, THEN conjunct1, rule_format, OF h2]
  have c2: "\<exists>s'. execute ?b = Inr s' \<and> reg s' 7 = 16"
    by (auto simp add: init_def)
  from BEQ_unsigned_offset [of ?c, THEN conjunct2, THEN conjunct2, THEN conjunct1, rule_format, OF h3]
  have c3: "\<exists>s'. execute ?c = Inr s' \<and> reg s' 7 = 6"
    by (auto simp add: init_def)
  from BEQ_unsigned_offset [of ?d, THEN conjunct2, THEN conjunct2, THEN conjunct2, rule_format, OF h4]
  have c4: "\<exists>s'. execute ?d = Inr s' \<and> br_exec s' = 1 \<and> br_taken s' = 1 \<and> reg s' 7 = 744"
    by (auto simp add: init_def)
  from h1 h2 h3 h4 c1 c2 c3 c4 show ?thesis by blast
qed

text \<open>
  C3 as stated fails for the words it quantifies over. In CMP R0,R0; \<open>001600\<close>; halt the
  CMP sets Z, and the word \<open>001600\<close>, whose low 8 bits have bit 7 set, is executed with
  the PC at 4: as a BEQ, taken, it would go to 4 + 2 * 128; the simulator runs the BNE case,
  takes no branch and halts on the next word with the PC at 6.
\<close>

theorem BEQ_bit7_counterexample:
  "map_sum id (\<lambda>s. (cc_z s, br_exec s, br_taken s, reg s 7))
     (main_steps 2 [0x2000, 0x380, 0]) = Inr (1, 1, 0, 4) \<and>
   map_option (map_sum id (\<lambda>s. (br_exec s, br_taken s, reg s 7)))
     (main [0x2000, 0x380, 0]) = Some (Inr (1, 0, 6))"
  by (simp add: pdp11_defs main_steps_def steps_numeral run.simps)

section \<open>ADD followed by SUB in the program\<close>

lemma unat_eq_7: "(unat (v :: cint) = 7) = (v = 7)"
  by (auto simp: word_unat_eq_iff)

text \<open>
  C4, amended. Let two successive passes of the loop fetch an ADD \<open>w1\<close> and a SUB \<open>w2\<close>,
  both with their operands in Register mode and with the same destination register, which
  is not R7. Let \<open>a\<close> be the value the ADD reads from its source register and \<open>b\<close> the
  value of the destination, and let the SUB's source be another register than the
  destination, from which the SUB reads \<open>b\<close> (a source R7 reads the PC as the fetch has
  advanced it). For 16-bit \<open>a\<close> and \<open>b\<close> both passes complete, the destination holds
  \<open>a + b\<close> masked to 16 bits after the ADD and \<open>a\<close> again after the SUB, and the flags N,
  Z, V, C after the SUB are those of the reference algorithm for the subtraction of \<open>b\<close>
  from the ADD's result.
\<close>

theorem ADD_then_SUB:
  assumes run: "halt s = 0"
    and f1: "mem_at s (reg s 7) = Some w1"
    and add: "drop_bit 12 w1 = 6" "drop_bit 9 w1 AND 7 = 0" "drop_bit 3 w1 AND 7 = 0"
    and f2: "mem_at s ((reg s 7 + 2) AND 0xFFFF) = Some w2"
    and sub: "drop_bit 12 w2 = 14" "drop_bit 9 w2 AND 7 = 0" "drop_bit 3 w2 AND 7 = 0"
    and same: "w2 AND 7 = w1 AND 7"
    and not_pc: "w1 AND 7 \<noteq> 7"
    and other: "drop_bit 6 w2 AND 7 \<noteq> w1 AND 7"
    and a: "(if drop_bit 6 w1 AND 7 = 7 then (reg s 7 + 2) AND 0xFFFF
             else reg s (unat (drop_bit 6 w1 AND 7))) = a"
    and b: "reg s (unat (w1 AND 7)) = b"
    and b': "(if drop_bit 6 w2 AND 7 = 7 then (((reg s 7 + 2) AND 0xFFFF) + 2) AND 0xFFFF
              else reg s (unat (drop_bit 6 w2 AND 7))) = b"
    and range: "a < 0x10000" "b < 0x10000"
  shows "\<exists>s1 s2. step s = Inr s1 \<and> step s1 = Inr s2 \<and> steps 2 s = Inr s2 \<and>
     reg s1 (unat (w1 AND 7)) = (a + b) AND 0xFFFF \<and>
     reg s2 (unat (w1 AND 7)) = a \<and>
     (cc_n s2, cc_z s2, cc_v s2, cc_c s2) =
        ref_SUB_flags (uint b) ((uint a + uint b) mod 65536)"
proof -
  let ?x = "unat (drop_bit 6 w1 AND 7)"
  let ?y = "unat (w1 AND 7)"
  let ?z = "unat (drop_bit 6 w2 AND 7)"
  let ?p1 = "(reg s 7 + 2) AND 0xFFFF"
  let ?p2 = "(?p1 + 2) AND 0xFFFF"
  let ?t = "s\<lparr>instruction := w1, instr_exec := instr_exec s + 1,
     instr_fetch := instr_fetch s + 1, reg := (reg s)(7 := ?p1)\<rparr>"
  have y7: "?y \<noteq> 7" using not_pc by (simp add: unat_eq_7)
  have zy: "?z \<noteq> ?y" using other by (simp add: word_unat_eq_iff)
  have nz1: "w1 \<noteq> 0" using add(1) by auto
  have nz2: "w2 \<noteq> 0" using sub(1) by auto
  have st: "step s = execute ?t" by (rule step_nonzero [OF f1 nz1])
  have add': "drop_bit 12 (instruction ?t) = 6" "drop_bit 9 (instruction ?t) AND 7 = 0"
    "drop_bit 3 (instruction ?t) AND 7 = 0"
    using add by simp_all
  from ADD_REG_result [OF add'] obtain s1 where 1: "execute ?t = Inr s1"
    and r1: "reg s1 = (reg ?t)(?y := (reg ?t ?x + reg ?t ?y) AND 0xFFFF)"
    and m1: "mem s1 = mem ?t" and h1: "halt s1 = halt ?t"
    by auto
  have tx: "reg ?t ?x = a" using a by (simp add: unat_eq_7)
  have ty: "reg ?t ?y = b" using b y7 by simp
  have y1: "reg s1 ?y = (a + b) AND 0xFFFF" using r1 tx ty by simp
  have pc1: "reg s1 7 = ?p1" using r1 y7 by simp
  have f2': "mem_at s1 (reg s1 7) = Some w2"
    using f2 m1 pc1 mem_at_mem [of s1 s] by simp
  let ?u = "s1\<lparr>instruction := w2, instr_exec := instr_exec s1 + 1,
     instr_fetch := instr_fetch s1 + 1, reg := (reg s1)(7 := (reg s1 7 + 2) AND 0xFFFF)\<rparr>"
  have st2: "step s1 = execute ?u" by (rule step_nonzero [OF f2' nz2])
  have sub': "drop_bit 12 (instruction ?u) = 14" "drop_bit 9 (instruction ?u) AND 7 = 0"
    "drop_bit 3 (instruction ?u) AND 7 = 0"
    using sub by simp_all
  from SUB_REG_result [OF sub'] obtain s2 where 2: "execute ?u = Inr s2"
    and r2: "reg s2 = (reg ?u)(unat (instruction ?u AND 7) :=
        (reg ?u (unat (instruction ?u AND 7)) - reg ?u (unat (drop_bit 6 (instruction ?u) AND 7)))
          AND 0xFFFF)"
    and f2: "(cc_n s2, cc_z s2, cc_v s2, cc_c s2) =
        ref_SUB_flags (uint (reg ?u (unat (drop_bit 6 (instruction ?u) AND 7))))
          (uint (reg ?u (unat (instruction ?u AND 7))))"
    by blast
  have uy: "reg ?u ?y = (a + b) AND 0xFFFF" using y1 y7 by simp
  have uz: "reg ?u ?z = b"
  proof (cases "drop_bit 6 w2 AND 7 = 7")
    case True
    then show ?thesis using b' pc1 by (simp add: unat_eq_7)
  next
    case False
    then have "?z \<noteq> 7" by (simp add: unat_eq_7)
    then show ?thesis using b' False r1 zy by simp
  qed
  have y2: "reg s2 ?y = a"
    using r2 uy uz same add_sub_16 [OF range(1), of b] by simp
  have fl: "(cc_n s2, cc_z s2, cc_v s2, cc_c s2) =
        ref_SUB_flags (uint b) ((uint a + uint b) mod 65536)"
    using f2 uy uz same by (simp add: uint_add_masked)
  have s1: "step s = Inr s1" using st 1 by simp
  have s2: "step s1 = Inr s2" using st2 2 by simp
  have "halt s1 = 0" using h1 run by simp
  from steps_2 [OF run s1 this s2] have "steps 2 s = Inr s2" .
  with s1 s2 y1 y2 fl show ?thesis by blast
qed

text \<open>
  ADD R1,R2 (\<open>060102\<close>) at address 0 and SUB R3,R2 (\<open>0160302\<close>) at address 2, with
  R1 = \<open>0177777\<close> and R2 = R3 = 2: the sum wraps to 1, the difference 1 - 2 borrows, R2 is
  \<open>0177777\<close> again and N and C are set.
\<close>

theorem ADD_then_SUB_witness:
  "\<exists>s1 s2. step (init\<lparr>mem := (\<lambda>_. 0)(0 := 0x6042, 1 := 0xE0C2),
        reg := (\<lambda>_. 0)(1 := 0xFFFF, 2 := 2, 3 := 2)\<rparr>) = Inr s1 \<and>
      step s1 = Inr s2 \<and>
      steps 2 (init\<lparr>mem := (\<lambda>_. 0)(0 := 0x6042, 1 := 0xE0C2),
        reg := (\<lambda>_. 0)(1 := 0xFFFF, 2 := 2, 3 := 2)\<rparr>) = Inr s2 \<and>
      reg s1 2 = 1 \<and> reg s2 2 = 0xFFFF \<and>
      cc_n s2 = 1 \<and> cc_z s2 = 0 \<and> cc_v s2 = 0 \<and> cc_c s2 = 1"
proof -
  let ?s = "init\<lparr>mem := (\<lambda>_. 0)(0 := 0x6042, 1 := 0xE0C2),
        reg := (\<lambda>_. 0)(1 := 0xFFFF, 2 := 2, 3 := 2)\<rparr>"
  have run: "halt ?s = 0" by (simp add: init_def)
  have f1: "mem_at ?s (reg ?s 7) = Some 0x6042"
    by (simp add: mem_at_def mem_index_def MEM_SIZE_def)
  have add: "drop_bit 12 (0x6042 :: cint) = 6" "drop_bit 9 (0x6042 :: cint) AND 7 = 0"
      "drop_bit 3 (0x6042 :: cint) AND 7 = 0" by simp_all
  have f2: "mem_at ?s ((reg ?s 7 + 2) AND 0xFFFF) = Some 0xE0C2"
    by (simp add: mem_at_def mem_index_def MEM_SIZE_def)
  have sub: "drop_bit 12 (0xE0C2 :: cint) = 14" "drop_bit 9 (0xE0C2 :: cint) AND 7 = 0"
     "drop_bit 3 (0xE0C2 :: cint) AND 7 = 0" by simp_all
  have same: "(0xE0C2 :: cint) AND 7 = 0x6042 AND 7" by simp
  have not_pc: "(0x6042 :: cint) AND 7 \<noteq> 7" by simp
  have other: "drop_bit 6 (0xE0C2 :: cint) AND 7 \<noteq> 0x6042 AND 7" by simp
  have a: "(if drop_bit 6 (0x6042 :: cint) AND 7 = 7 then (reg ?s 7 + 2) AND 0xFFFF
             else reg ?s (unat (drop_bit 6 (0x6042 :: cint) AND 7))) = 0xFFFF" by simp
  have b: "reg ?s (unat ((0x6042 :: cint) AND 7)) = 2" by simp
  have b': "(if drop_bit 6 (0xE0C2 :: cint) AND 7 = 7
              then (((reg ?s 7 + 2) AND 0xFFFF) + 2) AND 0xFFFF
              else reg ?s (unat (drop_bit 6 (0xE0C2 :: cint) AND 7))) = 2" by simp
  have range: "(0xFFFF :: cint) < 0x10000" "(2 :: cint) < 0x10000" by simp_all
  have ref: "ref_SUB_flags (uint (2 :: cint)) ((uint (0xFFFF :: cint) + uint (2 :: cint)) mod 65536)
      = (1, 0, 0, 1)"
    by (simp add: ref_SUB_flags_def)
  from ADD_then_SUB [OF run f1 add f2 sub same not_pc other a b b' range] ref
  show ?thesis by auto
qed

text \<open>
  C4 as stated, for every register, fails when the destination is R7. In
  MOV #2,R1; MOV #012,R3; ADD R1,R7; (a word skipped); SUB R3,R7 the ADD reads \<open>a\<close> = 2 from
  R1 and \<open>b\<close> = 10 from R7 and leaves 12 there; the pass of the SUB at address 12 advances
  R7 to 14 before the SUB reads it, and R7 ends as 4, not 2.
\<close>

theorem ADD_SUB_on_PC_counterexample:
  "map_sum id (\<lambda>s. (reg s 1, reg s 3, reg s 7))
     (main_steps 2 [0x15C1, 2, 0x15C3, 10, 0x6047, 0, 0xE0C7]) = Inr (2, 10, 8) \<and>
   map_sum id (\<lambda>s. reg s 7) (main_steps 3 [0x15C1, 2, 0x15C3, 10, 0x6047, 0, 0xE0C7]) = Inr 12 \<and>
   map_sum id (\<lambda>s. reg s 7) (main_steps 4 [0x15C1, 2, 0x15C3, 10, 0x6047, 0, 0xE0C7]) = Inr 4"
  by (simp add: main_steps_def steps_numeral pdp11_defs)

section \<open>SOB in the program\<close>

text \<open>A SOB with offset 1 that is taken comes back to its own address.\<close>

lemma self_branch:
  assumes "(p :: cint) < 0x10000"
  shows "(((p + 2) AND 0xFFFF) - 2) AND 0xFFFF = p"
  using add_sub_16 [OF assms, of 2] by simp

lemma SOB_step:
  assumes f: "mem_at s (reg s 7) = Some w" and sob: "drop_bit 9 w = 63"
  shows "\<exists>s1. step s = Inr s1 \<and> br_exec s1 = br_exec s + 1 \<and> mem s1 = mem s \<and>
     halt s1 = halt s \<and>
     (let r = unat (drop_bit 6 w AND 7);
          regs0 = (reg s)(7 := (reg s 7 + 2) AND 0xFFFF);
          d = regs0 r - 1;
          regs1 = regs0(r := d)
      in br_taken s1 = br_taken s + (if d \<noteq> 0 then 1 else 0) \<and>
         reg s1 = (if d \<noteq> 0 then regs1(7 := (regs1 7 - 2 * (w AND 0x3F)) AND 0xFFFF)
                   else regs1))"
proof -
  let ?t = "s\<lparr>instruction := w, instr_exec := instr_exec s + 1,
     instr_fetch := instr_fetch s + 1, reg := (reg s)(7 := (reg s 7 + 2) AND 0xFFFF)\<rparr>"
  have nz: "w \<noteq> 0" using sob by auto
  have st: "step s = execute ?t" by (rule step_nonzero [OF f nz])
  have sob': "drop_bit 9 (instruction ?t) = 63" using sob by simp
  let ?r = "unat (drop_bit 6 w AND 7)"
  let ?d = "reg ?t ?r - 1"
  let ?regs1 = "(reg ?t)(?r := ?d)"
  from SOB_result [OF sob'] obtain s1 where e: "execute ?t = Inr s1"
    and fr: "br_exec s1 = br_exec s + 1" "mem s1 = mem s" "halt s1 = halt s"
    and tk: "br_taken s1 = br_taken s + (if ?d \<noteq> 0 then 1 else 0)"
    and rg: "reg s1 = (if ?d \<noteq> 0 then ?regs1(7 := (?regs1 7 - 2 * (w AND 0x3F)) AND 0xFFFF)
                       else ?regs1)"
    by (auto simp: Let_def sign_extend_low6)
  have "step s = Inr s1" using st e by simp
  with fr tk rg show ?thesis
    unfolding Let_def by (intro exI [of _ s1]) simp
qed

lemma SOB_self_loop:
  assumes run: "halt s = 0"
    and f: "mem_at s (reg s 7) = Some w" and sob: "drop_bit 9 w = 63"
    and off: "w AND 0x3F = 1"
    and r7: "drop_bit 6 w AND 7 \<noteq> 7"
    and two: "reg s (unat (drop_bit 6 w AND 7)) = 2"
  shows "\<exists>s1 s2. step s = Inr s1 \<and> br_taken s1 = br_taken s + 1 \<and> reg s1 7 = reg s 7 \<and>
     reg s1 (unat (drop_bit 6 w AND 7)) = 1 \<and>
     step s1 = Inr s2 \<and> steps 2 s = Inr s2 \<and> br_exec s2 = br_exec s + 2 \<and>
     br_taken s2 = br_taken s + 1 \<and>
     reg s2 (unat (drop_bit 6 w AND 7)) = 0 \<and> reg s2 7 = (reg s 7 + 2) AND 0xFFFF"
proof -
  let ?r = "unat (drop_bit 6 w AND 7)"
  have r: "?r \<noteq> 7" using r7 by (simp add: unat_eq_7)
  have p: "reg s 7 < 0x10000" by (rule fetch_address_16bit [OF f])
  from SOB_step [OF f sob] obtain s1 where 1: "step s = Inr s1"
    and e1: "br_exec s1 = br_exec s + 1" and m1: "mem s1 = mem s" and h1: "halt s1 = halt s"
    and t1: "br_taken s1 = br_taken s + 1"
    and r1: "reg s1 = ((reg s)(7 := (reg s 7 + 2) AND 0xFFFF, ?r := 1))
                (7 := (((reg s 7 + 2) AND 0xFFFF) - 2) AND 0xFFFF)"
    using two r off by (auto simp: Let_def)
  have pc1: "reg s1 7 = reg s 7" using r1 self_branch [OF p] by simp
  have v1: "reg s1 ?r = 1" using r1 r by simp
  have f1: "mem_at s1 (reg s1 7) = Some w" using f pc1 m1 mem_at_mem [of s1 s] by simp
  from SOB_step [OF f1 sob] obtain s2 where 2: "step s1 = Inr s2"
    and e2: "br_exec s2 = br_exec s1 + 1"
    and t2: "br_taken s2 = br_taken s1"
    and r2: "reg s2 = (reg s1)(7 := (reg s1 7 + 2) AND 0xFFFF, ?r := 0)"
    using v1 r by (auto simp: Let_def)
  have "halt s1 = 0" using h1 run by simp
  from steps_2 [OF run 1 this 2] have st: "steps 2 s = Inr s2" .
  have v2: "reg s2 ?r = 0" using r2 by simp
  have pc2: "reg s2 7 = (reg s 7 + 2) AND 0xFFFF" using r2 r pc1 by simp
  from 1 2 st t1 t2 e1 e2 pc1 v1 v2 pc2 show ?thesis by auto
qed

text \<open>
  C8, amended. A pass of the loop that fetches a word with \<open>instruction >> 9 = 63\<close>
  executes a SOB and completes. The operand register (bits 6..8, read in Register mode)
  is decremented by one. The offset is the low 6 bits of the instruction as an unsigned
  value 0..63: the sign extension of the code starts at bit 7 and leaves it unchanged. When
  the decremented register is not zero the branch is taken and R7 becomes
  (R7 - 2 * offset) masked to 16 bits, R7 being read after the decrement; otherwise no
  other register changes. So with an operand register other than R7 the new PC is
  (PC - 2 * offset) masked, PC being the PC as the fetch advanced it, when the decremented
  value is not zero, and that PC unchanged otherwise. A SOB whose register holds 1 when it
  is decremented is not taken. With an operand register other than R7 that holds 2, a SOB
  with offset 1 (a loop on itself) is taken once, comes back to its own address with the
  register at 1, and the next pass falls through with the register at 0. MOV #1,R0;
  SOB R0,1; halt executes one branch and takes none, MOV #2,R0; SOB R0,1; halt executes
  two and takes one.
\<close>

theorem SOB_effect:
  assumes f: "mem_at s (reg s 7) = Some w" and sob: "drop_bit 9 w = 63"
  shows "(\<exists>s1. step s = Inr s1 \<and> br_exec s1 = br_exec s + 1 \<and>
     (let r = unat (drop_bit 6 w AND 7);
          offset = sign_extend (w AND 0x3F);
          pc = (reg s 7 + 2) AND 0xFFFF;
          regs0 = (reg s)(7 := pc);
          d = regs0 r - 1;
          regs1 = regs0(r := d)
      in offset = w AND 0x3F \<and>
         reg s1 = (if d \<noteq> 0 then regs1(7 := (regs1 7 - 2 * offset) AND 0xFFFF) else regs1) \<and>
         br_taken s1 = br_taken s + (if d \<noteq> 0 then 1 else 0) \<and>
         (r \<noteq> 7 \<longrightarrow>
            reg s1 r = reg s r - 1 \<and>
            reg s1 7 = (if reg s r - 1 \<noteq> 0 then (pc - 2 * offset) AND 0xFFFF else pc)) \<and>
         (regs0 r = 1 \<longrightarrow> br_taken s1 = br_taken s \<and> reg s1 = regs0(r := 0)) \<and>
         (r \<noteq> 7 \<and> reg s r = 2 \<and> offset = 1 \<and> halt s = 0 \<longrightarrow>
            br_taken s1 = br_taken s + 1 \<and> reg s1 7 = reg s 7 \<and> reg s1 r = 1 \<and>
            (\<exists>s2. step s1 = Inr s2 \<and> steps 2 s = Inr s2 \<and> br_exec s2 = br_exec s + 2 \<and>
                   br_taken s2 = br_taken s + 1 \<and> reg s2 r = 0 \<and> reg s2 7 = pc))))
     \<and> (\<exists>t. main [0x15C0, 1, 0x7E01, 0] = Some (Inr t) \<and> br_exec t = 1 \<and> br_taken t = 0)
     \<and> (\<exists>t. main [0x15C0, 2, 0x7E01, 0] = Some (Inr t) \<and> br_exec t = 2 \<and> br_taken t = 1)"
proof -
  let ?r = "unat (drop_bit 6 w AND 7)"
  let ?o = "w AND 0x3F"
  let ?pc = "(reg s 7 + 2) AND 0xFFFF"
  let ?regs0 = "(reg s)(7 := ?pc)"
  let ?d = "?regs0 ?r - 1"
  let ?regs1 = "?regs0(?r := ?d)"
  from SOB_step [OF f sob] obtain s1 where 1: "step s = Inr s1"
    and e: "br_exec s1 = br_exec s + 1"
    and t: "br_taken s1 = br_taken s + (if ?d \<noteq> 0 then 1 else 0)"
    and r: "reg s1 = (if ?d \<noteq> 0 then ?regs1(7 := (?regs1 7 - 2 * ?o) AND 0xFFFF) else ?regs1)"
    by (auto simp: Let_def)
  have a: "?r \<noteq> 7 \<longrightarrow>
            reg s1 ?r = reg s ?r - 1 \<and>
            reg s1 7 = (if reg s ?r - 1 \<noteq> 0 then (?pc - 2 * ?o) AND 0xFFFF else ?pc)"
    using r by simp
  have b: "?regs0 ?r = 1 \<longrightarrow> br_taken s1 = br_taken s \<and> reg s1 = ?regs0(?r := 0)"
    using t r by simp
  have c: "?r \<noteq> 7 \<and> reg s ?r = 2 \<and> ?o = 1 \<and> halt s = 0 \<longrightarrow>
            br_taken s1 = br_taken s + 1 \<and> reg s1 7 = reg s 7 \<and> reg s1 ?r = 1 \<and>
            (\<exists>s2. step s1 = Inr s2 \<and> steps 2 s = Inr s2 \<and> br_exec s2 = br_exec s + 2 \<and>
                   br_taken s2 = br_taken s + 1 \<and> reg s2 ?r = 0 \<and> reg s2 7 = ?pc)"
  proof
    assume h: "?r \<noteq> 7 \<and> reg s ?r = 2 \<and> ?o = 1 \<and> halt s = 0"
    then have "halt s = 0" "?o = 1" "drop_bit 6 w AND 7 \<noteq> 7" "reg s ?r = 2"
      by (simp_all add: unat_eq_7)
    from SOB_self_loop [OF this(1) f sob this(2,3,4)] 1
    show "br_taken s1 = br_taken s + 1 \<and> reg s1 7 = reg s 7 \<and> reg s1 ?r = 1 \<and>
            (\<exists>s2. step s1 = Inr s2 \<and> steps 2 s = Inr s2 \<and> br_exec s2 = br_exec s + 2 \<and>
                   br_taken s2 = br_taken s + 1 \<and> reg s2 ?r = 0 \<and> reg s2 7 = ?pc)"
      by auto
  qed
  have p1: "\<exists>t. main [0x15C0, 1, 0x7E01, 0] = Some (Inr t) \<and> br_exec t = 1 \<and> br_taken t = 0"
    using run_sob_1 by (auto split: option.splits sum.splits)
  have p2: "\<exists>t. main [0x15C0, 2, 0x7E01, 0] = Some (Inr t) \<and> br_exec t = 2 \<and> br_taken t = 1"
    using run_sob_2 by (auto split: option.splits sum.splits)
  show ?thesis
    unfolding Let_def sign_extend_low6
    using 1 e t r a b c p1 p2 by blast
qed

text \<open>SOB R0,1 (\<open>077001\<close>) at address 6, with R0 = 1 and with R0 = 2.\<close>

theorem SOB_effect_witness:
  "mem_at (init\<lparr>mem := (\<lambda>_. 0)(3 := 0x7E01), reg := (\<lambda>_. 0)(0 := 1, 7 := 6)\<rparr>)
      (reg (init\<lparr>mem := (\<lambda>_. 0)(3 := 0x7E01), reg := (\<lambda>_. 0)(0 := 1, 7 := 6)\<rparr>) 7) = Some 0x7E01 \<and>
   drop_bit 9 (0x7E01 :: cint) = 63 \<and>
   (\<exists>s1. step (init\<lparr>mem := (\<lambda>_. 0)(3 := 0x7E01), reg := (\<lambda>_. 0)(0 := 1, 7 := 6)\<rparr>) = Inr s1 \<and>
      br_exec s1 = 1 \<and> br_taken s1 = 0 \<and> reg s1 0 = 0 \<and> reg s1 7 = 8) \<and>
   mem_at (init\<lparr>mem := (\<lambda>_. 0)(3 := 0x7E01), reg := (\<lambda>_. 0)(0 := 2, 7 := 6)\<rparr>)
      (reg (init\<lparr>mem := (\<lambda>_. 0)(3 := 0x7E01), reg := (\<lambda>_. 0)(0 := 2, 7 := 6)\<rparr>) 7) = Some 0x7E01 \<and>
   (\<exists>s1 s2. step (init\<lparr>mem := (\<lambda>_. 0)(3 := 0x7E01), reg := (\<lambda>_. 0)(0 := 2, 7 := 6)\<rparr>) = Inr s1 \<and>
      br_taken s1 = 1 \<and> reg s1 0 = 1 \<and> reg s1 7 = 6 \<and>
      step s1 = Inr s2 \<and>
      steps 2 (init\<lparr>mem := (\<lambda>_. 0)(3 := 0x7E01), reg := (\<lambda>_. 0)(0 := 2, 7 := 6)\<rparr>) = Inr s2 \<and>
      br_exec s2 = 2 \<and> br_taken s2 = 1 \<and> reg s2 0 = 0 \<and> reg s2 7 = 8)"
proof -
  let ?a = "init\<lparr>mem := (\<lambda>_. 0)(3 := 0x7E01), reg := (\<lambda>_. 0)(0 := 1, 7 := 6)\<rparr>"
  let ?b = "init\<lparr>mem := (\<lambda>_. 0)(3 := 0x7E01), reg := (\<lambda>_. 0)(0 := 2, 7 := 6)\<rparr>"
  have fa: "mem_at ?a (reg ?a 7) = Some 0x7E01"
    by (simp add: mem_at_def mem_index_def MEM_SIZE_def)
  have fb: "mem_at ?b (reg ?b 7) = Some 0x7E01"
    by (simp add: mem_at_def mem_index_def MEM_SIZE_def)
  have sob: "drop_bit 9 (0x7E01 :: cint) = 63" by simp
  from SOB_effect [OF fa sob, THEN conjunct1]
  have ca: "\<exists>s1. step ?a = Inr s1 \<and> br_exec s1 = 1 \<and> br_taken s1 = 0 \<and> reg s1 0 = 0 \<and>
      reg s1 7 = 8"
    by (auto simp: Let_def init_def)
  from SOB_effect [OF fb sob, THEN conjunct1]
  have cb: "\<exists>s1 s2. step ?b = Inr s1 \<and> br_taken s1 = 1 \<and> reg s1 0 = 1 \<and> reg s1 7 = 6 \<and>
      step s1 = Inr s2 \<and> steps 2 ?b = Inr s2 \<and>
      br_exec s2 = 2 \<and> br_taken s2 = 1 \<and> reg s2 0 = 0 \<and> reg s2 7 = 8"
    by (auto simp: Let_def init_def sign_extend_low6)
  from fa fb sob ca cb show ?thesis by blast
qed

text \<open>
  C8 as stated fails in two ways. For offset fields from 32 on: SOB R0,040 (\<open>077040\<close>)
  with R0 = 2 and PC = 100 goes back 64 bytes to 36, where the 6-bit field sign-extended
  (to -32) would give 164. For the operand register R7: the one-word program SOB R7,0
  (\<open>077700\<close>) decrements the PC itself; R7 holds 2 when the first pass decrements it, and
  the branch is taken in the first pass and again in the second; and a SOB R7,0 fetched at
  \<open>0177777\<close> is not taken but changes the PC from 1 to 0.
\<close>

theorem SOB_offset_counterexample:
  "map_sum id (\<lambda>s'. reg s' 7)
     (execute (init\<lparr>instruction := 0x7E20, reg := (\<lambda>_. 0)(0 := 2, 7 := 100)\<rparr>)) = Inr 36 \<and>
   (100 - 2 * claimed_SOB_offset 0x7E20) AND 0xFFFF = (164 :: cint) \<and>
   map_sum id (\<lambda>s. (br_exec s, br_taken s, reg s 7)) (main_steps 1 [0x7FC0]) = Inr (1, 1, 1) \<and>
   map_sum id (\<lambda>s. (br_exec s, br_taken s, reg s 7)) (main_steps 2 [0x7FC0]) = Inr (2, 2, 2) \<and>
   map_sum id (\<lambda>s. (br_taken s, reg s 7))
     (step (init\<lparr>reg := (\<lambda>_. 0)(7 := 0xFFFF), mem := (\<lambda>_. 0)(32767 := 0x7FC0)\<rparr>)) = Inr (0, 0)"
  by (simp add: pdp11_defs claimed_SOB_offset_def main_steps_def steps_numeral)

end
